theory Spec2Isabelle
  imports Complex_Main "HOL-Library.Word"
begin

section \<open>Numeric model\<close>

text \<open>
  The arrays of \<^verbatim>\<open>evaluate.py\<close> hold floating-point numbers. They are modelled by exact
  rationals: rounding and overflow of finite values are not modelled. What is modelled
  is the part of IEEE arithmetic the code relies on: a division by zero does not raise
  in numpy, it yields an infinity or NaN, and every comparison with NaN is false.
\<close>

datatype fval = Fin rat | PInf | NInf | NaN

text \<open>numpy's true division of two finite values.\<close>

definition fdiv :: "rat \<Rightarrow> rat \<Rightarrow> fval" where
  "fdiv a b =
     (if b \<noteq> 0 then Fin (a / b)
      else if 0 < a then PInf
      else if a < 0 then NInf
      else NaN)"

text \<open>The comparison \<^verbatim>\<open>x >= t\<close> of a float with a finite threshold.\<close>

fun fge :: "fval \<Rightarrow> rat \<Rightarrow> bool" where
  "fge (Fin q) t = (t \<le> q)"
| "fge PInf t = True"
| "fge NInf t = False"
| "fge NaN t = False"

text \<open>
  \<^verbatim>\<open>np.nan_to_num\<close>: NaN becomes 0, the infinities become the largest and the smallest
  finite double.
\<close>

definition dbl_max :: rat where
  "dbl_max = (2 ^ 53 - 1) * 2 ^ 971"

fun nan_to_num :: "fval \<Rightarrow> rat" where
  "nan_to_num (Fin q) = q"
| "nan_to_num PInf = dbl_max"
| "nan_to_num NInf = - dbl_max"
| "nan_to_num NaN = 0"

text \<open>
  \<^verbatim>\<open>mean\<close> of a one-dimensional slice of finite values: the mean of an empty slice
  is NaN (numpy warns and does not raise).
\<close>

definition mean :: "rat list \<Rightarrow> fval" where
  "mean xs = (if xs = [] then NaN else Fin (sum_list xs / of_nat (length xs)))"


section \<open>IoU and overlap computation\<close>

text \<open>A row of a box array: the four columns, indexed 0 to 3 as in the source.\<close>

datatype box = Box (b0: rat) (b1: rat) (b2: rat) (b3: rat)

text \<open>
  \<^verbatim>\<open>compute_iou(box, boxes, box_area, boxes_area)\<close>: one reference box against an
  array of boxes, elementwise.
\<close>

definition compute_iou :: "box \<Rightarrow> box list \<Rightarrow> rat \<Rightarrow> rat list \<Rightarrow> fval list" where
  "compute_iou box boxes box_area boxes_area =
     map (\<lambda>(b, b_area).
            let y1 = max (b0 box) (b0 b);
                y2 = min (b2 box) (b2 b);
                x1 = max (b1 box) (b1 b);
                x2 = min (b3 box) (b3 b);
                intersection = max (x2 - x1) 0 * max (y2 - y1) 0;
                union_area = box_area + b_area - intersection
            in fdiv intersection union_area)
         (zip boxes boxes_area)"

definition box_area :: "box \<Rightarrow> rat" where
  "box_area b = (b2 b - b0 b) * (b3 b - b1 b)"

text \<open>
  \<^verbatim>\<open>compute_overlaps(boxes1, boxes2)\<close>: the matrix has one row per box of
  \<open>boxes1\<close> and one column per box of \<open>boxes2\<close>; column \<open>i\<close> is filled by
  \<open>compute_iou (boxes2 ! i) boxes1\<close>. A matrix is the list of its rows; with no column
  it still has \<open>length boxes1\<close> rows, each empty.
\<close>

definition compute_overlaps :: "box list \<Rightarrow> box list \<Rightarrow> fval list list" where
  "compute_overlaps boxes1 boxes2 =
     (let area1 = map box_area boxes1;
          area2 = map box_area boxes2;
          cols = map (\<lambda>(b, a). compute_iou b boxes1 a area1) (zip boxes2 area2)
      in map (\<lambda>j. map (\<lambda>c. c ! j) cols) [0..<length boxes1])"


section \<open>Errors\<close>

text \<open>
  The exceptions the modelled code can raise. \<open>InvalidState\<close> is the
  \<^verbatim>\<open>Exception('use detect after enable eval mode')\<close> of \<^verbatim>\<open>SSD.detect\<close>;
  \<open>ValueError\<close> is numpy's "attempt to get argmax of an empty sequence";
  \<open>ShapeError\<close> stands for what numpy does with arrays whose lengths do not fit each
  other (outside the documented inputs of \<^verbatim>\<open>update\<close>, not modelled further);
  \<open>IndexError\<close> and \<open>TypeError\<close> are Python's.
\<close>

datatype error = InvalidState | ValueError | ShapeError | IndexError | TypeError


section \<open>The detection model: mode switching and extra layers\<close>

text \<open>
  Of an \<^verbatim>\<open>SSD\<close> instance, the fields that mode switching reads and writes. The
  decoder class \<^verbatim>\<open>Detector\<close> is not part of the sources: an instance is
  represented by the \<open>num_classes\<close> it was constructed with, and what calling it
  returns is a parameter of \<open>detect\<close>.
\<close>

datatype detector = Detector nat

record ssd =
  num_classes :: nat
  detector :: "detector option"
  training :: bool

text \<open>
  \<^verbatim>\<open>SSD.detect\<close>. The parameter \<open>run\<close> stands for the call
  \<^verbatim>\<open>self.detector(loc, F.softmax(conf, dim=-1), prior)\<close>.
\<close>

definition detect :: "(detector \<Rightarrow> 'l \<Rightarrow> 'c \<Rightarrow> 'p \<Rightarrow> 'o) \<Rightarrow> ssd \<Rightarrow> 'l \<Rightarrow> 'c \<Rightarrow> 'p \<Rightarrow> error + 'o" where
  "detect run self loc conf prior =
     (case detector self of
        None \<Rightarrow> Inl InvalidState
      | Some d \<Rightarrow> Inr (run d loc conf prior))"

text \<open>
  \<^verbatim>\<open>torch.nn.Module.train(self, mode=True)\<close> sets \<^verbatim>\<open>self.training = mode\<close> (and
  does the same on the child modules, which are not modelled).
\<close>

definition Module_train :: "bool \<Rightarrow> ssd \<Rightarrow> ssd" where
  "Module_train mode self = self\<lparr>training := mode\<rparr>"

text \<open>
  \<^verbatim>\<open>SSD.train(self, mode=True)\<close>: discards the decoder, then calls
  \<^verbatim>\<open>super(SSD, self).train()\<close> with no argument, so that the base class receives
  its default \<^verbatim>\<open>mode=True\<close> whatever \<open>mode\<close> was.
\<close>

definition train :: "bool \<Rightarrow> ssd \<Rightarrow> ssd" where
  "train mode self = Module_train True (self\<lparr>detector := None\<rparr>)"

text \<open>
  \<^verbatim>\<open>torch.nn.Module.eval(self)\<close> is \<^verbatim>\<open>return self.train(False)\<close>. The receiver
  is an \<^verbatim>\<open>SSD\<close>, whose \<^verbatim>\<open>train\<close> overrides the base method, so the call is
  dispatched to \<^verbatim>\<open>SSD.train\<close>.
\<close>

definition Module_eval :: "ssd \<Rightarrow> ssd" where
  "Module_eval self = train False self"

text \<open>
  \<^verbatim>\<open>SSD.eval(self)\<close>: creates the decoder, then calls
  \<^verbatim>\<open>super(SSD, self).eval()\<close>.
\<close>

definition eval :: "ssd \<Rightarrow> ssd" where
  "eval self = Module_eval (self\<lparr>detector := Some (Detector (num_classes self))\<rparr>)"

text \<open>An entry of \<^verbatim>\<open>SSD300.EXTRAS\<close>: a channel count or the marker \<^verbatim>\<open>'S'\<close>.\<close>

datatype feature = Ch nat | S

definition EXTRAS :: "feature list" where
  "EXTRAS = [Ch 256, S, Ch 512, Ch 128, S, Ch 256, Ch 128, Ch 256, Ch 128, Ch 256]"

text \<open>The arguments a \<^verbatim>\<open>nn.Conv2d\<close> is constructed with.\<close>

record conv2d =
  in_channels :: nat
  out_channels :: nat
  kernel_size :: nat
  stride :: nat
  padding :: nat

text \<open>\<^verbatim>\<open>cycle((1, 3))\<close> after \<open>k\<close> calls of \<^verbatim>\<open>next\<close>.\<close>

definition kernel_cycle :: "nat \<Rightarrow> nat" where
  "kernel_cycle k = [1, 3] ! (k mod 2)"

text \<open>
  The loop of \<^verbatim>\<open>SSD300.extra\<close> over \<^verbatim>\<open>enumerate(cls.EXTRAS)\<close>. Its state is the
  running \<open>in_channels\<close> (which becomes \<open>S\<close> after an \<open>S\<close> entry) and the number
  \<open>k\<close> of kernel sizes drawn so far. \<^verbatim>\<open>cls.EXTRAS[i + 1]\<close> raises IndexError past
  the end, and a \<^verbatim>\<open>Conv2d\<close> cannot be built with \<^verbatim>\<open>'S'\<close> as its output channels.
\<close>

fun extra_loop :: "feature list \<Rightarrow> (nat \<times> feature) list \<Rightarrow> feature \<Rightarrow> nat \<Rightarrow> error + conv2d list" where
  "extra_loop ex [] inc k = Inr []"
| "extra_loop ex ((i, feature) # rest) inc k =
     (case inc of
        S \<Rightarrow> extra_loop ex rest feature k
      | Ch c_in \<Rightarrow>
          (case (if feature = S
                 then (if i + 1 < length ex then Inr (ex ! (i + 1)) else Inl IndexError)
                 else Inr feature) of
             Inl e \<Rightarrow> Inl e
           | Inr S \<Rightarrow> Inl TypeError
           | Inr (Ch c_out) \<Rightarrow>
               (case extra_loop ex rest feature (k + 1) of
                  Inl e \<Rightarrow> Inl e
                | Inr layers \<Rightarrow>
                    Inr (\<lparr>in_channels = c_in, out_channels = c_out,
                          kernel_size = kernel_cycle k,
                          stride = (if feature = S then 2 else 1),
                          padding = (if feature = S then 1 else 0)\<rparr> # layers))))"

definition extra :: "nat \<Rightarrow> error + conv2d list" where
  "extra c_in = extra_loop EXTRAS (enumerate 0 EXTRAS) (Ch c_in) 0"


section \<open>The evaluator\<close>

text \<open>
  The counters are numpy arrays of dtype \<^verbatim>\<open>uint32\<close>: 32-bit words, whose arithmetic
  wraps around. \<open>TP\<close>, \<open>FP\<close> and \<open>FN\<close> have one row per threshold and one column per
  class.
\<close>

record evaluator =
  n_class :: nat
  patch :: "rat list"
  threshold :: rat
  TP :: "32 word list list"
  FP :: "32 word list list"
  FN :: "32 word list list"
  gt_counts :: "32 word list"
  pd_counts :: "32 word list"

text \<open>\<^verbatim>\<open>np.linspace(0, 1, n)\<close>: empty for 0, the single point 0 for 1.\<close>

definition linspace01 :: "nat \<Rightarrow> rat list" where
  "linspace01 n = (if n = 1 then [0] else map (\<lambda>i. of_nat i / of_nat (n - 1)) [0..<n])"

text \<open>The constructor \<^verbatim>\<open>Evaluator(n_class, sample_patch, threshold)\<close>.\<close>

definition Evaluator :: "nat \<Rightarrow> nat \<Rightarrow> rat \<Rightarrow> evaluator" where
  "Evaluator n sample_patch thr =
     \<lparr>n_class = n, patch = linspace01 sample_patch, threshold = thr,
      TP = replicate sample_patch (replicate n 0),
      FP = replicate sample_patch (replicate n 0),
      FN = replicate sample_patch (replicate n 0),
      gt_counts = replicate n 0,
      pd_counts = replicate n 0\<rparr>"

text \<open>
  The two arguments of \<^verbatim>\<open>update\<close>, without the masks, which the code never reads.
  Absent scores are \<open>None\<close>.
\<close>

record predictions =
  pd_class_ids :: "int list"
  pd_scores :: "rat list option"
  pd_bboxes :: "box list"

record groundtruths =
  gt_class_ids :: "int list"
  gt_bboxes :: "box list"

text \<open>
  \<^verbatim>\<open>argmax\<close> of a non-empty row, as numpy scans it: the running maximum is replaced
  only by a strictly greater entry, so the first index of the maximum is returned.
\<close>

fun argmax_from :: "'a::linorder list \<Rightarrow> nat \<Rightarrow> 'a \<Rightarrow> nat \<Rightarrow> nat" where
  "argmax_from [] i best bi = bi"
| "argmax_from (x # xs) i best bi =
     (if best < x then argmax_from xs (i + 1) x i else argmax_from xs (i + 1) best bi)"

fun argmax :: "'a::linorder list \<Rightarrow> nat" where
  "argmax [] = 0"
| "argmax (x # xs) = argmax_from xs 1 x 0"

text \<open>The comparison \<^verbatim>\<open>b >= t\<close> of a boolean (numerically 0 or 1) with a float.\<close>

definition bool_ge :: "bool \<Rightarrow> rat \<Rightarrow> bool" where
  "bool_ge b t = (t \<le> (if b then 1 else 0))"

text \<open>
  The static method \<^verbatim>\<open>Evaluator.compute_iou(tar_boxes, src_boxes, threshold)\<close>.
  \<^verbatim>\<open>iou.argmax(axis=1)\<close> raises ValueError when the matrix has no column. The
  assignment \<^verbatim>\<open>outputs[axis, argm] = iou[axis, argm]\<close> writes, for each row \<open>a\<close>, the
  entry in column \<open>argm ! a\<close>.
\<close>

definition Evaluator_compute_iou :: "box list \<Rightarrow> box list \<Rightarrow> rat \<Rightarrow> error + bool list list" where
  "Evaluator_compute_iou tar_boxes src_boxes thr =
     (let iou = map (map (\<lambda>v. fge v thr)) (compute_overlaps tar_boxes src_boxes)
      in if src_boxes = [] then Inl ValueError
         else
           let axis = [0..<length iou];
               argm = map argmax iou;
               zeros = replicate (length iou) (replicate (length src_boxes) False);
               outputs = foldl (\<lambda>out (a, m). out[a := (out ! a)[m := iou ! a ! m]])
                               zeros (zip axis argm)
           in Inr (map (map (\<lambda>b. bool_ge b thr)) outputs))"

text \<open>Boolean-mask indexing \<^verbatim>\<open>xs[mask]\<close> of an array by a mask of the same length.\<close>

definition mask_select :: "'a list \<Rightarrow> bool list \<Rightarrow> 'a list" where
  "mask_select xs sel = map fst (filter snd (zip xs sel))"

text \<open>\<^verbatim>\<open>.any(axis=0)\<close> of a matrix with \<open>n\<close> columns: one boolean per column.\<close>

definition any_axis0 :: "nat \<Rightarrow> bool list list \<Rightarrow> bool list" where
  "any_axis0 n rows = map (\<lambda>j. list_ex (\<lambda>row. row ! j) rows) [0..<n]"

text \<open>\<^verbatim>\<open>np.sum\<close> of a boolean array.\<close>

definition count_true :: "bool list \<Rightarrow> int" where
  "count_true bs = int (length (filter id bs))"

text \<open>
  \<^verbatim>\<open>a[k] += v\<close> and \<^verbatim>\<open>m[p][k] += v\<close> on \<^verbatim>\<open>uint32\<close> arrays with an
  \<^verbatim>\<open>int64\<close> increment: the sum is formed as an integer and cast back to 32 bits.
\<close>

definition add1 :: "32 word list \<Rightarrow> nat \<Rightarrow> int \<Rightarrow> 32 word list" where
  "add1 a k v = a[k := word_of_int (uint (a ! k) + v)]"

definition add2 :: "32 word list list \<Rightarrow> nat \<Rightarrow> nat \<Rightarrow> int \<Rightarrow> 32 word list list" where
  "add2 m p k v = m[p := add1 (m ! p) k v]"

text \<open>
  \<^verbatim>\<open>np.logical_and(pd_class_ids == klass, pd_scores >= patch)\<close>, elementwise.
\<close>

definition pd_mask :: "int list \<Rightarrow> rat list \<Rightarrow> nat \<Rightarrow> rat \<Rightarrow> bool list" where
  "pd_mask pd_ids scores klass patchv =
     map (\<lambda>(c, s). c = int klass \<and> patchv \<le> s) (zip pd_ids scores)"

text \<open>
  \<^verbatim>\<open>np.sum(iou[pd_mask][:, gt_class_ids == klass].any(axis=0))\<close>: the rows of the
  selected predictions, of these the columns of the ground truths of the class, then
  one boolean per remaining column.
\<close>

definition true_positive :: "int list \<Rightarrow> bool list list \<Rightarrow> nat \<Rightarrow> bool list \<Rightarrow> int" where
  "true_positive gt_ids iou klass pmask =
     (let gt_mask = map (\<lambda>c. c = int klass) gt_ids;
          selected = map (\<lambda>row. mask_select row gt_mask) (mask_select iou pmask)
      in count_true (any_axis0 (length (filter id gt_mask)) selected))"

text \<open>
  The body of the loop over \<^verbatim>\<open>enumerate(self.patch)\<close> in \<^verbatim>\<open>update\<close>, for one
  threshold \<open>(p, patchv)\<close> of class \<open>klass\<close>.
\<close>

definition patch_step ::
  "int list \<Rightarrow> rat list \<Rightarrow> int list \<Rightarrow> bool list list \<Rightarrow> nat \<Rightarrow> int \<Rightarrow> evaluator \<Rightarrow> nat \<times> rat \<Rightarrow> evaluator" where
  "patch_step pd_ids scores gt_ids iou klass gt_number self = (\<lambda>(p, patchv).
     let pmask = pd_mask pd_ids scores klass patchv;
         pd_number = count_true pmask
     in if pd_number = 0
        then self\<lparr>FN := add2 (FN self) p klass gt_number\<rparr>
        else
          let tp = true_positive gt_ids iou klass pmask
          in self\<lparr>TP := add2 (TP self) p klass tp,
                   FP := add2 (FP self) p klass (pd_number - tp),
                   FN := add2 (FN self) p klass (gt_number - tp)\<rparr>)"

text \<open>The body of the loop over \<^verbatim>\<open>range(self.n_class)\<close>.\<close>

definition class_step ::
  "int list \<Rightarrow> rat list \<Rightarrow> int list \<Rightarrow> bool list list \<Rightarrow> evaluator \<Rightarrow> nat \<Rightarrow> evaluator" where
  "class_step pd_ids scores gt_ids iou self klass =
     (let gt_number = count_true (map (\<lambda>c. c = int klass) gt_ids);
          self1 = self\<lparr>gt_counts := add1 (gt_counts self) klass gt_number\<rparr>;
          self2 = self1\<lparr>pd_counts :=
                    add1 (pd_counts self1) klass (count_true (map (\<lambda>c. c = int klass) pd_ids))\<rparr>
      in foldl (patch_step pd_ids scores gt_ids iou klass gt_number) self2
               (enumerate 0 (patch self2)))"

text \<open>
  \<^verbatim>\<open>if pd_scores is None: pd_scores = np.ones_like(pd_class_ids)\<close>.
\<close>

definition scores_or_ones :: "predictions \<Rightarrow> rat list" where
  "scores_or_ones pd =
     (case pd_scores pd of
        None \<Rightarrow> map (\<lambda>c. 1) (pd_class_ids pd)
      | Some s \<Rightarrow> s)"

text \<open>
  The documented shape of the inputs of \<^verbatim>\<open>update\<close>: one class id (and one score,
  when scores are given) per predicted box, one class id per ground-truth box.
\<close>

definition well_formed :: "predictions \<Rightarrow> groundtruths \<Rightarrow> bool" where
  "well_formed pd gt =
     (length (pd_class_ids pd) = length (pd_bboxes pd)
      \<and> (case pd_scores pd of None \<Rightarrow> True
          | Some s \<Rightarrow> length s = length (pd_class_ids pd))
      \<and> length (gt_class_ids gt) = length (gt_bboxes gt))"

text \<open>
  \<^verbatim>\<open>Evaluator.update\<close>. The match matrix is computed only when there is a predicted
  box; without one no prediction is ever selected and the matrix is not read. The
  counters are touched only after the match matrix has been computed, so an exception
  leaves them as they were.
\<close>

definition update :: "evaluator \<Rightarrow> predictions \<Rightarrow> groundtruths \<Rightarrow> error + evaluator" where
  "update self pd gt =
     (if \<not> well_formed pd gt then Inl ShapeError
      else
        case (if pd_bboxes pd \<noteq> []
              then Evaluator_compute_iou (pd_bboxes pd) (gt_bboxes gt) (threshold self)
              else Inr []) of
          Inl e \<Rightarrow> Inl e
        | Inr iou \<Rightarrow>
            Inr (foldl (class_step (pd_class_ids pd) (scores_or_ones pd) (gt_class_ids gt) iou)
                       self [0..<n_class self]))"

text \<open>A sequence of \<^verbatim>\<open>update\<close> calls, one per frame; an exception ends it.\<close>

fun updates :: "evaluator \<Rightarrow> (predictions \<times> groundtruths) list \<Rightarrow> error + evaluator" where
  "updates self [] = Inr self"
| "updates self ((pd, gt) # frames) =
     (case update self pd gt of
        Inl e \<Rightarrow> Inl e
      | Inr self' \<Rightarrow> updates self' frames)"

text \<open>
  The derived properties. \<^verbatim>\<open>self.TP + self.FP\<close> is a sum of \<^verbatim>\<open>uint32\<close> arrays and
  wraps around; the division is a true division of the two unsigned values. The mean
  runs over the thresholds and gives one value per class.
\<close>

definition ratio :: "32 word list list \<Rightarrow> 32 word list list \<Rightarrow> rat list list" where
  "ratio num other =
     map (\<lambda>(nrow, orow).
            map (\<lambda>(t, f). nan_to_num (fdiv (of_nat (unat t)) (of_nat (unat (t + f)))))
                (zip nrow orow))
         (zip num other)"

definition mean_axis0 :: "nat \<Rightarrow> rat list list \<Rightarrow> fval list" where
  "mean_axis0 n rows = map (\<lambda>k. mean (map (\<lambda>row. row ! k) rows)) [0..<n]"

definition precision :: "evaluator \<Rightarrow> fval list" where
  "precision self = mean_axis0 (n_class self) (ratio (TP self) (FP self))"

definition recall :: "evaluator \<Rightarrow> fval list" where
  "recall self = mean_axis0 (n_class self) (ratio (TP self) (FN self))"

text \<open>Addition, subtraction and multiplication of floats, with the IEEE special cases.\<close>

fun fneg :: "fval \<Rightarrow> fval" where
  "fneg (Fin a) = Fin (- a)"
| "fneg PInf = NInf"
| "fneg NInf = PInf"
| "fneg NaN = NaN"

fun fadd :: "fval \<Rightarrow> fval \<Rightarrow> fval" where
  "fadd (Fin a) (Fin b) = Fin (a + b)"
| "fadd NaN y = NaN"
| "fadd x NaN = NaN"
| "fadd PInf NInf = NaN"
| "fadd NInf PInf = NaN"
| "fadd PInf y = PInf"
| "fadd x PInf = PInf"
| "fadd NInf y = NInf"
| "fadd x NInf = NInf"

definition fsub :: "fval \<Rightarrow> fval \<Rightarrow> fval" where
  "fsub x y = fadd x (fneg y)"

fun fmul :: "fval \<Rightarrow> fval \<Rightarrow> fval" where
  "fmul (Fin a) (Fin b) = Fin (a * b)"
| "fmul NaN y = NaN"
| "fmul x NaN = NaN"
| "fmul (Fin a) y = (if a = 0 then NaN else if 0 < a then y else fneg y)"
| "fmul x (Fin b) = (if b = 0 then NaN else if 0 < b then x else fneg x)"
| "fmul PInf y = y"
| "fmul NInf y = fneg y"

text \<open>
  The property \<^verbatim>\<open>mAP\<close>. \<^verbatim>\<open>self.precision\<close> and \<^verbatim>\<open>self.recall\<close> are
  one-dimensional, one entry per class, so \<^verbatim>\<open>[::-1]\<close> reverses the order of the
  classes and the loop variables \<open>precision\<close> and \<open>recall\<close> are scalars. \<open>ap\<close> is
  an array with one entry per class, to which each step adds the same scalar;
  \<open>prev_recall\<close> starts as an array of zeros and is a scalar from the first step on,
  written here as the array it broadcasts to.
\<close>

definition mAP :: "evaluator \<Rightarrow> fval list" where
  "mAP self =
     (let n = n_class self;
          zeros = replicate n (Fin 0)
      in snd (foldl (\<lambda>(prev_recall, ap) (precision, recall).
                       (replicate n recall,
                        map (\<lambda>(a, pr). fadd a (fmul precision (fsub recall pr)))
                            (zip ap prev_recall)))
                    (zeros, zeros)
                    (zip (rev (precision self)) (rev (recall self)))))"


section \<open>The evaluation command line\<close>

text \<open>
  The file system and the dataset loader are inputs of the model. \<open>results\<close> is the
  sorted list of the result files of \<^verbatim>\<open>--dest\<close>: an entry is \<open>None\<close> when
  \<^verbatim>\<open>pd.read_csv\<close> fails on that file, and otherwise the rows of the table, each
  with its class id (column 1), its score (column 2) and its box (columns 3 onwards).
  \<open>testset\<close> gives for each frame index what \<^verbatim>\<open>pull_anno\<close> returns, boxes and
  labels. A table that can be read but lacks these columns makes \<^verbatim>\<open>main\<close> fail
  outside the \<^verbatim>\<open>try\<close> block; such files are not inputs of the model.
\<close>

type_synonym detection = "(int \<times> rat \<times> box) list"

text \<open>
  The \<^verbatim>\<open>try\<close> block: \<^verbatim>\<open>results[index]\<close> raises IndexError past the end of the
  list, and the bare \<^verbatim>\<open>except\<close> catches that as it catches a failed read.
\<close>

definition read_result :: "detection option list \<Rightarrow> nat \<Rightarrow> detection option" where
  "read_result results index = (if index < length results then results ! index else None)"

fun main_loop ::
  "detection option list \<Rightarrow> (box list \<times> int list) list \<Rightarrow> nat list \<Rightarrow> evaluator \<Rightarrow> error + evaluator" where
  "main_loop results testset [] ev = Inr ev"
| "main_loop results testset (index # rest) ev =
     (case read_result results index of
        None \<Rightarrow> main_loop results testset rest ev
      | Some detection \<Rightarrow>
          (let (boxes, labels) = testset ! index
           in if boxes = [] then main_loop results testset rest ev
              else
                (case update ev
                        \<lparr>pd_class_ids = map fst detection,
                         pd_scores = Some (map (\<lambda>r. fst (snd r)) detection),
                         pd_bboxes = map (\<lambda>r. snd (snd r)) detection\<rparr>
                        \<lparr>gt_class_ids = replicate (length boxes) 1,
                         gt_bboxes = boxes\<rparr> of
                   Inl e \<Rightarrow> Inl e
                 | Inr ev' \<Rightarrow> main_loop results testset rest ev')))"

text \<open>
  \<^verbatim>\<open>main\<close>, of whose returned 5-tuple the two totals are modelled: the ground-truth
  count and the prediction count, summed over the classes other than class 0. The
  counters are read as unsigned values and summed as integers.
\<close>

definition main :: "detection option list \<Rightarrow> (box list \<times> int list) list \<Rightarrow> error + int \<times> int" where
  "main results testset =
     (case main_loop results testset [0..<length testset] (Evaluator 2 11 (1 / 2)) of
        Inl e \<Rightarrow> Inl e
      | Inr evaluator \<Rightarrow>
          Inr (foldl (\<lambda>(gt_total, pd_total) klass.
                        if klass = 0 then (gt_total, pd_total)
                        else (gt_total + uint (gt_counts evaluator ! klass),
                              pd_total + uint (pd_counts evaluator ! klass)))
                     (0, 0) [0..<n_class evaluator]))"


section \<open>The claims' own notions\<close>

text \<open>
  The definitions of this section are not translated from the code: they say, in the
  words of the specification, what the code is compared with.
\<close>

text \<open>
  For the match matrix: the index of the best entry of a row, ties broken by the lowest
  index, is the first index whose entry is at least every entry of the row.
\<close>

definition first_max_index :: "'a::linorder list \<Rightarrow> nat" where
  "first_max_index row =
     (case find (\<lambda>j. list_all (\<lambda>v. v \<le> row ! j) row) [0..<length row] of
        Some j \<Rightarrow> j
      | None \<Rightarrow> 0)"

text \<open>
  The match matrix in the words of the specification: the pairwise IoU matrix,
  thresholded at \<open>\<ge> t\<close>; in each row only the entry at the best index is kept and
  every other entry is zeroed; the result is thresholded again.
\<close>

definition iou_match_spec :: "box list \<Rightarrow> box list \<Rightarrow> rat \<Rightarrow> bool list list" where
  "iou_match_spec tar src t =
     (let thresholded = map (map (\<lambda>v. fge v t)) (compute_overlaps tar src);
          kept = map (\<lambda>row. map (\<lambda>j. j = first_max_index row \<and> row ! j) [0..<length row])
                     thresholded
      in map (map (\<lambda>b. bool_ge b t)) kept)"

text \<open>
  For the counters: the predictions of a class selected at a threshold value, the
  ground truths of a class, and the ground truths of the class that have an accepted
  match among the selected predictions; each as the list of the indices.
\<close>

definition selected_predictions :: "predictions \<Rightarrow> nat \<Rightarrow> rat \<Rightarrow> nat list" where
  "selected_predictions pd klass patchv =
     filter (\<lambda>i. pd_class_ids pd ! i = int klass \<and> patchv \<le> scores_or_ones pd ! i)
            [0..<length (pd_class_ids pd)]"

definition class_predictions :: "predictions \<Rightarrow> nat \<Rightarrow> nat list" where
  "class_predictions pd klass =
     filter (\<lambda>i. pd_class_ids pd ! i = int klass) [0..<length (pd_class_ids pd)]"

definition class_ground_truths :: "groundtruths \<Rightarrow> nat \<Rightarrow> nat list" where
  "class_ground_truths gt klass =
     filter (\<lambda>j. gt_class_ids gt ! j = int klass) [0..<length (gt_class_ids gt)]"

definition matched_ground_truths ::
  "bool list list \<Rightarrow> predictions \<Rightarrow> groundtruths \<Rightarrow> nat \<Rightarrow> rat \<Rightarrow> nat list" where
  "matched_ground_truths iou pd gt klass patchv =
     filter (\<lambda>j. list_ex (\<lambda>i. iou ! i ! j) (selected_predictions pd klass patchv))
            (class_ground_truths gt klass)"


text \<open>
  For the command line: the total of the claim, the ground-truth boxes of all frames
  with a non-empty ground truth; and the total over those frames of \<open>indices\<close> whose
  entry in the sorted list of result files can be read and whose ground truth is not
  empty.
\<close>

definition ground_truth_total :: "(box list \<times> int list) list \<Rightarrow> nat" where
  "ground_truth_total testset =
     sum_list (map (\<lambda>(boxes, labels). length boxes)
                   (filter (\<lambda>(boxes, labels). boxes \<noteq> []) testset))"

definition counted_ground_truth_total ::
  "detection option list \<Rightarrow> (box list \<times> int list) list \<Rightarrow> nat list \<Rightarrow> nat" where
  "counted_ground_truth_total results testset indices =
     sum_list (map (\<lambda>index. length (fst (testset ! index)))
                   (filter (\<lambda>index. read_result results index \<noteq> None \<and> fst (testset ! index) \<noteq> [])
                           indices))"


section \<open>Example frames\<close>

text \<open>
  A frame with two classes. Class 0 has one ground truth and one prediction that
  matches it exactly; class 1 has two ground truths and two predictions, one of which
  matches. Every score is 1.
\<close>

definition two_class_frame :: "predictions \<times> groundtruths" where
  "two_class_frame =
     (\<lparr>pd_class_ids = [0, 1, 1], pd_scores = Some [1, 1, 1],
       pd_bboxes = [Box 0 0 1 1, Box 2 2 3 3, Box 9 9 10 10]\<rparr>,
      \<lparr>gt_class_ids = [0, 1, 1],
       gt_bboxes = [Box 0 0 1 1, Box 2 2 3 3, Box 5 5 6 6]\<rparr>)"

text \<open>The evaluator \<^verbatim>\<open>Evaluator(n_class=2)\<close> after one \<open>update\<close> with that frame.\<close>

definition two_class_state :: evaluator where
  "two_class_state =
     \<lparr>n_class = 2,
      patch = [0, 1 / 10, 1 / 5, 3 / 10, 2 / 5, 1 / 2, 3 / 5, 7 / 10, 4 / 5, 9 / 10, 1],
      threshold = 1 / 2,
      TP = [[1, 1], [1, 1], [1, 1], [1, 1], [1, 1], [1, 1], [1, 1], [1, 1], [1, 1], [1, 1], [1, 1]],
      FP = [[0, 1], [0, 1], [0, 1], [0, 1], [0, 1], [0, 1], [0, 1], [0, 1], [0, 1], [0, 1], [0, 1]],
      FN = [[0, 1], [0, 1], [0, 1], [0, 1], [0, 1], [0, 1], [0, 1], [0, 1], [0, 1], [0, 1], [0, 1]],
      gt_counts = [1, 2], pd_counts = [1, 2]\<rparr>"

text \<open>
  A frame with one prediction of class 1, without scores, and two ground truths of
  class 1, and the evaluator \<^verbatim>\<open>Evaluator(n_class=2, threshold=0.0)\<close> after one
  \<open>update\<close> with it.
\<close>

definition one_prediction_frame :: "predictions \<times> groundtruths" where
  "one_prediction_frame =
     (\<lparr>pd_class_ids = [1], pd_scores = None, pd_bboxes = [Box 0 0 1 1]\<rparr>,
      \<lparr>gt_class_ids = [1, 1], gt_bboxes = [Box 0 0 1 1, Box 5 5 6 6]\<rparr>)"

definition zero_threshold_state :: evaluator where
  "zero_threshold_state =
     \<lparr>n_class = 2,
      patch = [0, 1 / 10, 1 / 5, 3 / 10, 2 / 5, 1 / 2, 3 / 5, 7 / 10, 4 / 5, 9 / 10, 1],
      threshold = 0,
      TP = [[0, 2], [0, 2], [0, 2], [0, 2], [0, 2], [0, 2], [0, 2], [0, 2], [0, 2], [0, 2], [0, 2]],
      FP = [[0, 4294967295], [0, 4294967295], [0, 4294967295], [0, 4294967295],
            [0, 4294967295], [0, 4294967295], [0, 4294967295], [0, 4294967295],
            [0, 4294967295], [0, 4294967295], [0, 4294967295]],
      FN = [[0, 0], [0, 0], [0, 0], [0, 0], [0, 0], [0, 0], [0, 0], [0, 0], [0, 0], [0, 0], [0, 0]],
      gt_counts = [0, 2], pd_counts = [0, 1]\<rparr>"


section \<open>Auxiliary definitions\<close>

text \<open>
  What one threshold step adds to \<open>TP\<close>, \<open>FP\<close> and \<open>FN\<close> at its row and at the
  column of the class.
\<close>

definition delta ::
  "int list \<Rightarrow> rat list \<Rightarrow> int list \<Rightarrow> bool list list \<Rightarrow> nat \<Rightarrow> rat \<Rightarrow> int \<times> int \<times> int" where
  "delta pd_ids scores gt_ids iou klass patchv =
     (let pmask = pd_mask pd_ids scores klass patchv;
          pd_number = count_true pmask;
          gt_number = count_true (map (\<lambda>c. c = int klass) gt_ids);
          tp = true_positive gt_ids iou klass pmask
      in if pd_number = 0 then (0, 0, gt_number)
         else (tp, pd_number - tp, gt_number - tp))"

text \<open>The two nested loops, seen on one counter matrix alone.\<close>

definition mfold ::
  "(nat \<Rightarrow> rat \<Rightarrow> int) \<Rightarrow> rat list \<Rightarrow> 32 word list list \<Rightarrow> nat list \<Rightarrow> 32 word list list" where
  "mfold d ps m ks =
     foldl (\<lambda>m k. foldl (\<lambda>m (p, v). add2 m p k (d k v)) m (enumerate 0 ps)) m ks"

text \<open>The shape of the counters that the constructor sets up.\<close>

definition wf_evaluator :: "evaluator \<Rightarrow> bool" where
  "wf_evaluator self =
     (length (TP self) = length (patch self)
      \<and> length (FP self) = length (patch self)
      \<and> length (FN self) = length (patch self)
      \<and> list_all (\<lambda>row. length row = n_class self) (TP self)
      \<and> list_all (\<lambda>row. length row = n_class self) (FP self)
      \<and> list_all (\<lambda>row. length row = n_class self) (FN self)
      \<and> length (gt_counts self) = n_class self
      \<and> length (pd_counts self) = n_class self)"


section \<open>Counter arithmetic\<close>

lemma length_add1 [simp]: "length (add1 a k v) = length a"
  by (simp add: add1_def)

lemma nth_add1: "k < length a \<Longrightarrow> add1 a k v ! k = a ! k + word_of_int v"
  by (simp add: add1_def)

lemma nth_add1_neq: "j \<noteq> k \<Longrightarrow> add1 a k v ! j = a ! j"
  by (simp add: add1_def)

lemma add1_zero [simp]: "add1 a k 0 = a"
  by (simp add: add1_def)

lemma length_add2 [simp]: "length (add2 m p k v) = length m"
  by (simp add: add2_def)

lemma length_add2_nth [simp]: "length (add2 m p k v ! q) = length (m ! q)"
  by (cases "p < length m"; cases "q = p") (simp_all add: add2_def list_update_beyond)

lemma nth_add2: "p < length m \<Longrightarrow> k < length (m ! p) \<Longrightarrow> add2 m p k v ! p ! k = m ! p ! k + word_of_int v"
  by (simp add: add2_def nth_add1)

lemma nth_add2_neq: "q \<noteq> p \<or> j \<noteq> k \<Longrightarrow> add2 m p k v ! q ! j = m ! q ! j"
  by (cases "p < length m"; cases "q = p") (auto simp: add2_def nth_add1_neq list_update_beyond)

lemma add2_zero [simp]: "add2 m p k 0 = m"
  by (simp add: add2_def)

lemma nth_add2_if:
  "add2 m p k v ! q ! j =
     (if q = p \<and> j = k \<and> p < length m \<and> k < length (m ! p) then m ! q ! j + word_of_int v else m ! q ! j)"
proof (cases "q = p \<and> j = k")
  case False
  then show ?thesis by (auto simp: nth_add2_neq)
next
  case True
  show ?thesis
  proof (cases "p < length m")
    case False
    then show ?thesis by (simp add: add2_def list_update_beyond)
  next
    case pl: True
    show ?thesis
    proof (cases "k < length (m ! p)")
      case True
      with pl \<open>q = p \<and> j = k\<close> show ?thesis by (simp add: nth_add2)
    next
      case False
      with pl \<open>q = p \<and> j = k\<close> show ?thesis by (simp add: add2_def add1_def list_update_beyond)
    qed
  qed
qed

text \<open>The inner loop and both loops on one matrix: shape and entries.\<close>

lemma inner_fold_length:
  "length (foldl (\<lambda>m (p, v). add2 m p k (a v)) m0 ps) = length m0
   \<and> length (foldl (\<lambda>m (p, v). add2 m p k (a v)) m0 ps ! q) = length (m0 ! q)"
  by (induction ps arbitrary: m0) (auto simp: split_def)

lemma inner_fold_nth:
  "foldl (\<lambda>m (p, v). add2 m p k (a v)) m0 (enumerate 0 xs) ! q ! j =
     (if q < length xs \<and> j = k \<and> q < length m0 \<and> k < length (m0 ! q)
      then m0 ! q ! j + word_of_int (a (xs ! q)) else m0 ! q ! j)"
proof (induction xs rule: rev_induct)
  case Nil
  then show ?case by simp
next
  case (snoc x xs)
  have e: "enumerate 0 (xs @ [x]) = enumerate 0 xs @ [(length xs, x)]"
    by (simp add: enumerate_append_eq)
  show ?case
  proof (cases "q = length xs")
    case True
    then show ?thesis
      using snoc inner_fold_length [of k a m0 "enumerate 0 xs" "length xs"]
      by (auto simp: e nth_add2_if nth_append)
  next
    case False
    then show ?thesis
      using snoc inner_fold_length [of k a m0 "enumerate 0 xs" q]
      by (auto simp: e nth_add2_if nth_append)
  qed
qed

lemma mfold_length:
  "length (mfold d ps m ks) = length m \<and> length (mfold d ps m ks ! q) = length (m ! q)"
  by (induction ks arbitrary: m) (simp_all add: mfold_def inner_fold_length)

lemma mfold_snoc: "mfold d ps m (ks @ [k]) =
   foldl (\<lambda>m (p, v). add2 m p k (d k v)) (mfold d ps m ks) (enumerate 0 ps)"
  by (simp add: mfold_def)

lemma mfold_nth:
  "mfold d ps m [0..<n] ! q ! j =
     (if j < n \<and> q < length ps \<and> q < length m \<and> j < length (m ! q)
      then m ! q ! j + word_of_int (d j (ps ! q)) else m ! q ! j)"
proof (induction n)
  case 0
  then show ?case by (simp add: mfold_def)
next
  case (Suc n)
  show ?case
    using Suc mfold_length [of d ps m "[0..<n]" q]
    by (auto simp: mfold_snoc inner_fold_nth)
qed


section \<open>The loops of update in closed form\<close>

lemma patch_step_eq:
  "patch_step ps_ids sc gi iou k (count_true (map (\<lambda>c. c = int k) gi)) e (p, v) =
     e\<lparr>TP := add2 (TP e) p k (fst (delta ps_ids sc gi iou k v)),
       FP := add2 (FP e) p k (fst (snd (delta ps_ids sc gi iou k v))),
       FN := add2 (FN e) p k (snd (snd (delta ps_ids sc gi iou k v)))\<rparr>"
  by (simp add: patch_step_def delta_def Let_def)

lemma patch_fold_eq:
  "foldl (patch_step ps_ids sc gi iou k (count_true (map (\<lambda>c. c = int k) gi))) e ps =
     e\<lparr>TP := foldl (\<lambda>m (p, v). add2 m p k (fst (delta ps_ids sc gi iou k v))) (TP e) ps,
       FP := foldl (\<lambda>m (p, v). add2 m p k (fst (snd (delta ps_ids sc gi iou k v)))) (FP e) ps,
       FN := foldl (\<lambda>m (p, v). add2 m p k (snd (snd (delta ps_ids sc gi iou k v)))) (FN e) ps\<rparr>"
proof (induction ps arbitrary: e)
  case Nil
  then show ?case by simp
next
  case (Cons a ps)
  obtain p v where a: "a = (p, v)" by (cases a)
  show ?case
    by (simp add: a patch_step_eq Cons)
qed

lemma class_step_eq:
  "class_step ps_ids sc gi iou e k =
     e\<lparr>gt_counts := add1 (gt_counts e) k (count_true (map (\<lambda>c. c = int k) gi)),
       pd_counts := add1 (pd_counts e) k (count_true (map (\<lambda>c. c = int k) ps_ids)),
       TP := foldl (\<lambda>m (p, v). add2 m p k (fst (delta ps_ids sc gi iou k v))) (TP e) (enumerate 0 (patch e)),
       FP := foldl (\<lambda>m (p, v). add2 m p k (fst (snd (delta ps_ids sc gi iou k v)))) (FP e) (enumerate 0 (patch e)),
       FN := foldl (\<lambda>m (p, v). add2 m p k (snd (snd (delta ps_ids sc gi iou k v)))) (FN e) (enumerate 0 (patch e))\<rparr>"
  by (simp add: class_step_def Let_def patch_fold_eq)

lemma class_fold_eq:
  "foldl (class_step ps_ids sc gi iou) e ks =
     e\<lparr>gt_counts := foldl (\<lambda>a k. add1 a k (count_true (map (\<lambda>c. c = int k) gi))) (gt_counts e) ks,
       pd_counts := foldl (\<lambda>a k. add1 a k (count_true (map (\<lambda>c. c = int k) ps_ids))) (pd_counts e) ks,
       TP := mfold (\<lambda>k v. fst (delta ps_ids sc gi iou k v)) (patch e) (TP e) ks,
       FP := mfold (\<lambda>k v. fst (snd (delta ps_ids sc gi iou k v))) (patch e) (FP e) ks,
       FN := mfold (\<lambda>k v. snd (snd (delta ps_ids sc gi iou k v))) (patch e) (FN e) ks\<rparr>"
proof (induction ks arbitrary: e)
  case Nil
  then show ?case by (simp add: mfold_def)
next
  case (Cons k ks)
  show ?case
    by (simp only: foldl_Cons Cons) (simp add: class_step_eq mfold_def)
qed

lemma add1_beyond: "length a \<le> k \<Longrightarrow> add1 a k v = a"
  by (simp add: add1_def list_update_beyond)

lemma afold_length [simp]: "length (foldl (\<lambda>a k. add1 a k (g k)) a0 ks) = length a0"
  by (induction ks arbitrary: a0) simp_all

lemma afold_nth:
  "foldl (\<lambda>a k. add1 a k (g k)) a0 [0..<n] ! j =
     (if j < n \<and> j < length a0 then a0 ! j + word_of_int (g j) else a0 ! j)"
proof (induction n)
  case 0
  then show ?case by simp
next
  case (Suc n)
  show ?case
  proof (cases "j = n")
    case True
    then show ?thesis
      using Suc by (cases "n < length a0") (simp_all add: nth_add1 add1_beyond)
  next
    case False
    then show ?thesis
      using Suc by (auto simp: nth_add1_neq)
  qed
qed

text \<open>When the match matrix is computed, and when \<open>update\<close> returns.\<close>

lemma compute_iou_Inr:
  "src \<noteq> [] \<Longrightarrow> \<exists>m. Evaluator_compute_iou tar src t = Inr m"
  by (simp add: Evaluator_compute_iou_def Let_def)

lemma compute_iou_Inl:
  "Evaluator_compute_iou tar [] t = Inl ValueError"
  by (simp add: Evaluator_compute_iou_def Let_def)

lemma update_Inr_iff:
  "(\<exists>e'. update e pd gt = Inr e') \<longleftrightarrow> well_formed pd gt \<and> (pd_bboxes pd = [] \<or> gt_bboxes gt \<noteq> [])"
proof (cases "gt_bboxes gt = []")
  case True
  then show ?thesis
    by (auto simp: update_def compute_iou_Inl)
next
  case False
  then obtain m where "Evaluator_compute_iou (pd_bboxes pd) (gt_bboxes gt) (threshold e) = Inr m"
    using compute_iou_Inr by blast
  with False show ?thesis
    by (auto simp: update_def)
qed


section \<open>The match matrix\<close>

lemma compute_overlaps_length [simp]: "length (compute_overlaps bs1 bs2) = length bs1"
  by (simp add: compute_overlaps_def Let_def)

lemma compute_overlaps_row_length:
  "i < length bs1 \<Longrightarrow> length (compute_overlaps bs1 bs2 ! i) = length bs2"
  by (simp add: compute_overlaps_def Let_def)

lemma argmax_from_props:
  "bi < length pre \<Longrightarrow> best = pre ! bi \<Longrightarrow> \<forall>v\<in>set pre. v \<le> best \<Longrightarrow> \<forall>j<bi. pre ! j < best \<Longrightarrow>
   i = length pre \<Longrightarrow>
   argmax_from xs i best bi < length (pre @ xs)
   \<and> (\<forall>v\<in>set (pre @ xs). v \<le> (pre @ xs) ! argmax_from xs i best bi)
   \<and> (\<forall>j<argmax_from xs i best bi. (pre @ xs) ! j < (pre @ xs) ! argmax_from xs i best bi)"
proof (induction xs arbitrary: pre i best bi)
  case Nil
  then show ?case by simp
next
  case (Cons x xs)
  show ?case
  proof (cases "best < x")
    case True
    have a: "argmax_from (x # xs) i best bi = argmax_from xs (i + 1) x i"
      using True by simp
    have "argmax_from xs (i + 1) x i < length ((pre @ [x]) @ xs)
      \<and> (\<forall>v\<in>set ((pre @ [x]) @ xs). v \<le> ((pre @ [x]) @ xs) ! argmax_from xs (i + 1) x i)
      \<and> (\<forall>j<argmax_from xs (i + 1) x i. ((pre @ [x]) @ xs) ! j < ((pre @ [x]) @ xs) ! argmax_from xs (i + 1) x i)"
    proof (rule Cons.IH)
      show "i < length (pre @ [x])" using Cons.prems by simp
      show "x = (pre @ [x]) ! i" using Cons.prems by simp
      show "\<forall>v\<in>set (pre @ [x]). v \<le> x" using Cons.prems True by auto
      show "\<forall>j<i. (pre @ [x]) ! j < x"
      proof (intro allI impI)
        fix j assume "j < i"
        then have "pre ! j \<in> set pre" using Cons.prems by simp
        then have "pre ! j \<le> best" using Cons.prems by blast
        then have "pre ! j < x" using True by (rule le_less_trans)
        then show "(pre @ [x]) ! j < x" using \<open>j < i\<close> Cons.prems by (simp add: nth_append)
      qed
      show "i + 1 = length (pre @ [x])" using Cons.prems by simp
    qed
    then show ?thesis using True by simp
  next
    case False
    have a: "argmax_from (x # xs) i best bi = argmax_from xs (i + 1) best bi"
      using False by simp
    have "argmax_from xs (i + 1) best bi < length ((pre @ [x]) @ xs)
      \<and> (\<forall>v\<in>set ((pre @ [x]) @ xs). v \<le> ((pre @ [x]) @ xs) ! argmax_from xs (i + 1) best bi)
      \<and> (\<forall>j<argmax_from xs (i + 1) best bi. ((pre @ [x]) @ xs) ! j < ((pre @ [x]) @ xs) ! argmax_from xs (i + 1) best bi)"
    proof (rule Cons.IH)
      show "bi < length (pre @ [x])" using Cons.prems by simp
      show "best = (pre @ [x]) ! bi" using Cons.prems by (simp add: nth_append)
      show "\<forall>v\<in>set (pre @ [x]). v \<le> best" using Cons.prems False by auto
      show "\<forall>j<bi. (pre @ [x]) ! j < best" using Cons.prems by (simp add: nth_append)
      show "i + 1 = length (pre @ [x])" using Cons.prems by simp
    qed
    then show ?thesis using False by simp
  qed
qed

lemma argmax_props:
  assumes "row \<noteq> []"
  shows "argmax row < length row"
    and "\<forall>v\<in>set row. v \<le> row ! argmax row"
    and "\<forall>j<argmax row. row ! j < row ! argmax row"
proof -
  obtain x xs where r: "row = x # xs" using assms by (cases row) auto
  have "argmax_from xs 1 x 0 < length ([x] @ xs)
   \<and> (\<forall>v\<in>set ([x] @ xs). v \<le> ([x] @ xs) ! argmax_from xs 1 x 0)
   \<and> (\<forall>j<argmax_from xs 1 x 0. ([x] @ xs) ! j < ([x] @ xs) ! argmax_from xs 1 x 0)"
    by (rule argmax_from_props) simp_all
  then show "argmax row < length row"
    and "\<forall>v\<in>set row. v \<le> row ! argmax row"
    and "\<forall>j<argmax row. row ! j < row ! argmax row"
    by (simp_all add: r)
qed

lemma find_upt_first:
  "k < n \<Longrightarrow> P k \<Longrightarrow> \<forall>j<k. \<not> P j \<Longrightarrow> find P [0..<n] = Some k"
  by (auto simp: find_Some_iff intro!: exI [of _ k])

lemma argmax_first_max_index:
  assumes "row \<noteq> []"
  shows "argmax row = first_max_index row"
proof -
  let ?r = "argmax row"
  have "find (\<lambda>j. list_all (\<lambda>v. v \<le> row ! j) row) [0..<length row] = Some ?r"
  proof (rule find_upt_first)
    show "?r < length row" by (rule argmax_props(1) [OF assms])
    show "list_all (\<lambda>v. v \<le> row ! ?r) row"
      using argmax_props(2) [OF assms] by (simp add: list_all_iff)
    show "\<forall>j<?r. \<not> list_all (\<lambda>v. v \<le> row ! j) row"
    proof (intro allI impI)
      fix j assume j: "j < ?r"
      have "row ! ?r \<in> set row" using argmax_props(1) [OF assms] by simp
      moreover have "\<not> row ! ?r \<le> row ! j"
        using argmax_props(3) [OF assms] j by (simp add: not_le)
      ultimately show "\<not> list_all (\<lambda>v. v \<le> row ! j) row"
        by (auto simp: list_all_iff)
    qed
  qed
  then show ?thesis by (simp add: first_max_index_def)
qed

text \<open>The indexed assignment, row by row.\<close>

lemma zip_upt_nth: "n \<le> length ys \<Longrightarrow> zip [0..<n] ys = map (\<lambda>i. (i, ys ! i)) [0..<n]"
  by (rule nth_equalityI) simp_all

lemma scatter_fold:
  "n \<le> M \<Longrightarrow>
   foldl (\<lambda>out (a, m). out[a := (out ! a)[m := iou ! a ! m]])
         (replicate M (replicate N False)) (map (\<lambda>i. (i, argm ! i)) [0..<n])
   = map (\<lambda>a. if a < n then (replicate N False)[argm ! a := iou ! a ! (argm ! a)]
              else replicate N False) [0..<M]"
proof (induction n)
  case 0
  show ?case by (rule nth_equalityI) simp_all
next
  case (Suc n)
  then have IH: "foldl (\<lambda>out (a, m). out[a := (out ! a)[m := iou ! a ! m]])
         (replicate M (replicate N False)) (map (\<lambda>i. (i, argm ! i)) [0..<n])
   = map (\<lambda>a. if a < n then (replicate N False)[argm ! a := iou ! a ! (argm ! a)]
              else replicate N False) [0..<M]" by simp
  show ?case
    using Suc.prems
    by (simp add: IH) (rule nth_equalityI, auto simp: nth_list_update less_Suc_eq)
qed

lemma scatter_row:
  "a < N \<Longrightarrow> length row = N \<Longrightarrow>
   (replicate N False)[a := row ! a] = map (\<lambda>j. j = a \<and> row ! j) [0..<length row]"
  by (rule nth_equalityI) (auto simp: nth_list_update)

lemma Evaluator_compute_iou_spec:
  assumes "src \<noteq> []"
  shows "Evaluator_compute_iou tar src t = Inr (iou_match_spec tar src t)"
proof -
  let ?iou = "map (map (\<lambda>v. fge v t)) (compute_overlaps tar src)"
  let ?M = "length tar" and ?N = "length src"
  have len: "length ?iou = ?M" by simp
  have rowlen: "\<And>a. a < ?M \<Longrightarrow> length (?iou ! a) = ?N"
    by (simp add: compute_overlaps_row_length)
  have z: "zip [0..<?M] (map argmax ?iou) = map (\<lambda>i. (i, map argmax ?iou ! i)) [0..<?M]"
    by (rule zip_upt_nth) simp
  have sc: "foldl (\<lambda>out (a, m). out[a := (out ! a)[m := ?iou ! a ! m]])
         (replicate ?M (replicate ?N False)) (zip [0..<?M] (map argmax ?iou))
     = map (\<lambda>a. (replicate ?N False)[map argmax ?iou ! a := ?iou ! a ! (map argmax ?iou ! a)]) [0..<?M]"
    unfolding z by (subst scatter_fold) (simp_all cong: map_cong)
  have rows: "map (\<lambda>a. (replicate ?N False)[map argmax ?iou ! a := ?iou ! a ! (map argmax ?iou ! a)]) [0..<?M]
     = map (\<lambda>row. map (\<lambda>j. j = first_max_index row \<and> row ! j) [0..<length row]) ?iou"
  proof (rule nth_equalityI)
    show "length (map (\<lambda>a. (replicate ?N False)[map argmax ?iou ! a := ?iou ! a ! (map argmax ?iou ! a)]) [0..<?M])
      = length (map (\<lambda>row. map (\<lambda>j. j = first_max_index row \<and> row ! j) [0..<length row]) ?iou)"
      by simp
  next
    fix a assume "a < length (map (\<lambda>a. (replicate ?N False)[map argmax ?iou ! a := ?iou ! a ! (map argmax ?iou ! a)]) [0..<?M])"
    then have a: "a < ?M" by simp
    let ?row = "?iou ! a"
    have ne: "?row \<noteq> []" using rowlen [OF a] assms by auto
    have am: "map argmax ?iou ! a = argmax ?row" using a by simp
    have lt: "argmax ?row < ?N" using argmax_props(1) [OF ne] rowlen [OF a] by simp
    have "(replicate ?N False)[argmax ?row := ?row ! argmax ?row]
       = map (\<lambda>j. j = argmax ?row \<and> ?row ! j) [0..<length ?row]"
      by (rule scatter_row [OF lt rowlen [OF a]])
    then show "map (\<lambda>a. (replicate ?N False)[map argmax ?iou ! a := ?iou ! a ! (map argmax ?iou ! a)]) [0..<?M] ! a
       = map (\<lambda>row. map (\<lambda>j. j = first_max_index row \<and> row ! j) [0..<length row]) ?iou ! a"
      using a am argmax_first_max_index [OF ne] by (simp del: map_map)
  qed
  have "Evaluator_compute_iou tar src t =
      Inr (map (map (\<lambda>b. bool_ge b t))
            (foldl (\<lambda>out (a, m). out[a := (out ! a)[m := ?iou ! a ! m]])
               (replicate (length ?iou) (replicate ?N False))
               (zip [0..<length ?iou] (map argmax ?iou))))"
    unfolding Evaluator_compute_iou_def Let_def by (simp only: assms if_False)
  also have "\<dots> = Inr (iou_match_spec tar src t)"
    unfolding iou_match_spec_def Let_def by (simp only: len sc rows)
  finally show ?thesis .
qed


section \<open>The counters in the words of the specification\<close>

lemma filter_nth_idx: "filter Q xs = map ((!) xs) (filter (\<lambda>i. Q (xs ! i)) [0..<length xs])"
proof -
  have "filter Q xs = filter Q (map ((!) xs) [0..<length xs])"
    by (simp add: map_nth)
  also have "\<dots> = map ((!) xs) (filter (Q \<circ> (!) xs) [0..<length xs])"
    by (simp only: filter_map)
  finally show ?thesis by (simp add: comp_def)
qed

lemma length_filter_idx:
  "length (filter Q xs) = length (filter (\<lambda>i. Q (xs ! i)) [0..<length xs])"
proof -
  have "length (filter Q xs) = length (map ((!) xs) (filter (\<lambda>i. Q (xs ! i)) [0..<length xs]))"
    by (simp only: filter_nth_idx [symmetric])
  then show ?thesis by simp
qed

lemma count_true_map: "count_true (map f xs) = int (length (filter f xs))"
  by (simp add: count_true_def filter_map comp_def)

lemma mask_select_idx:
  assumes "length sel = length xs"
  shows "mask_select xs sel = map ((!) xs) (filter ((!) sel) [0..<length xs])"
proof -
  have z: "zip xs sel = map (\<lambda>i. (xs ! i, sel ! i)) [0..<length xs]"
    by (rule nth_equalityI) (simp_all add: assms)
  show ?thesis
    unfolding mask_select_def z by (simp add: filter_map comp_def)
qed

lemma pd_number_spec:
  assumes "length sc = length ids"
  shows "count_true (pd_mask ids sc k v) =
           int (length (filter (\<lambda>i. ids ! i = int k \<and> v \<le> sc ! i) [0..<length ids]))"
proof -
  have "length (filter (\<lambda>(c, s). c = int k \<and> v \<le> s) (zip ids sc))
      = length (filter (\<lambda>i. (\<lambda>(c, s). c = int k \<and> v \<le> s) (zip ids sc ! i)) [0..<length (zip ids sc)])"
    by (rule length_filter_idx)
  also have "\<dots> = length (filter (\<lambda>i. ids ! i = int k \<and> v \<le> sc ! i) [0..<length ids])"
    using assms by (auto intro!: arg_cong [where f = length] filter_cong)
  finally show ?thesis
    by (simp add: pd_mask_def count_true_map)
qed

lemma gt_number_spec:
  "count_true (map (\<lambda>c. c = int k) gi) = int (length (filter (\<lambda>j. gi ! j = int k) [0..<length gi]))"
  by (simp add: count_true_map length_filter_idx [of "\<lambda>c. c = int k" gi])

lemma true_positive_spec:
  assumes M: "length iou = length ids" "length sc = length ids"
    and N: "\<forall>i<length ids. length (iou ! i) = length gi"
  shows "true_positive gi iou k (pd_mask ids sc k v) =
     int (length (filter (\<lambda>j. list_ex (\<lambda>i. iou ! i ! j)
                                  (filter (\<lambda>i. ids ! i = int k \<and> v \<le> sc ! i) [0..<length ids]))
                       (filter (\<lambda>j. gi ! j = int k) [0..<length gi])))"
proof -
  let ?gm = "map (\<lambda>c. c = int k) gi"
  let ?pm = "pd_mask ids sc k v"
  let ?I = "filter (\<lambda>i. ids ! i = int k \<and> v \<le> sc ! i) [0..<length ids]"
  let ?J = "filter (\<lambda>j. gi ! j = int k) [0..<length gi]"
  let ?G = "\<lambda>j. list_ex (\<lambda>i. iou ! i ! j) ?I"
  have lpm: "length ?pm = length iou"
    by (simp add: pd_mask_def M)
  have I: "filter ((!) ?pm) [0..<length iou] = ?I"
    unfolding M(1) by (rule filter_cong) (auto simp: pd_mask_def M)
  have J: "filter ((!) ?gm) [0..<length gi] = ?J"
    by (rule filter_cong) auto
  have nJ: "length (filter id ?gm) = length ?J"
    using length_filter_idx [of "\<lambda>c. c = int k" gi] by (simp add: filter_map comp_def)
  have rows: "mask_select iou ?pm = map ((!) iou) ?I"
    using mask_select_idx [OF lpm] I by simp
  have sel: "map (\<lambda>row. mask_select row ?gm) (map ((!) iou) ?I) = map (\<lambda>i. map ((!) (iou ! i)) ?J) ?I"
  proof -
    have "\<And>i. i \<in> set ?I \<Longrightarrow> mask_select (iou ! i) ?gm = map ((!) (iou ! i)) ?J"
    proof -
      fix i assume "i \<in> set ?I"
      then have l: "length (iou ! i) = length gi" using N by simp
      then have "length ?gm = length (iou ! i)" by simp
      then have "mask_select (iou ! i) ?gm = map ((!) (iou ! i)) (filter ((!) ?gm) [0..<length (iou ! i)])"
        by (rule mask_select_idx)
      then show "mask_select (iou ! i) ?gm = map ((!) (iou ! i)) ?J"
        by (simp only: l J)
    qed
    then show ?thesis by (simp cong: map_cong)
  qed
  have any: "any_axis0 (length ?J) (map (\<lambda>i. map ((!) (iou ! i)) ?J) ?I)
           = map (\<lambda>j'. ?G (?J ! j')) [0..<length ?J]"
    unfolding any_axis0_def by (rule map_cong) (auto simp: list_ex_iff)
  have cnt: "count_true (map (\<lambda>j'. ?G (?J ! j')) [0..<length ?J]) = int (length (filter ?G ?J))"
    by (simp only: count_true_map length_filter_idx [of ?G ?J])
  show ?thesis
    unfolding true_positive_def Let_def nJ rows sel any cnt ..
qed

lemma iou_match_spec_length [simp]: "length (iou_match_spec tar src t) = length tar"
  by (simp add: iou_match_spec_def Let_def)

lemma iou_match_spec_row_length:
  "i < length tar \<Longrightarrow> length (iou_match_spec tar src t ! i) = length src"
  by (simp add: iou_match_spec_def Let_def compute_overlaps_row_length)

lemma linspace01_length [simp]: "length (linspace01 n) = n"
  by (simp add: linspace01_def)

lemma wf_Evaluator: "wf_evaluator (Evaluator n sp thr)"
  by (simp add: wf_evaluator_def Evaluator_def list_all_length)

lemma update_fold:
  assumes "update e pd gt = Inr e'"
  shows "well_formed pd gt \<and>
     (\<exists>iou. (if pd_bboxes pd \<noteq> []
             then Evaluator_compute_iou (pd_bboxes pd) (gt_bboxes gt) (threshold e)
             else Inr []) = Inr iou
        \<and> e' = foldl (class_step (pd_class_ids pd) (scores_or_ones pd) (gt_class_ids gt) iou)
                     e [0..<n_class e])"
  using assms by (auto simp: update_def split: if_splits sum.splits)

lemma update_fields:
  assumes "update e pd gt = Inr e'"
  shows "n_class e' = n_class e \<and> patch e' = patch e \<and> threshold e' = threshold e"
proof -
  obtain iou where "e' = foldl (class_step (pd_class_ids pd) (scores_or_ones pd) (gt_class_ids gt) iou)
                     e [0..<n_class e]"
    using update_fold [OF assms] by blast
  then show ?thesis by (simp add: class_fold_eq)
qed

lemma update_wf:
  assumes "update e pd gt = Inr e'" and "wf_evaluator e"
  shows "wf_evaluator e'"
proof -
  obtain iou where "e' = foldl (class_step (pd_class_ids pd) (scores_or_ones pd) (gt_class_ids gt) iou)
                     e [0..<n_class e]"
    using update_fold [OF assms(1)] by blast
  then show ?thesis
    using assms(2) by (simp add: class_fold_eq wf_evaluator_def list_all_length mfold_length)
qed

lemma updates_wf:
  "updates e frames = Inr e' \<Longrightarrow> wf_evaluator e \<Longrightarrow>
   wf_evaluator e' \<and> n_class e' = n_class e \<and> patch e' = patch e \<and> threshold e' = threshold e"
proof (induction frames arbitrary: e)
  case Nil
  then show ?case by simp
next
  case (Cons f frames)
  obtain pd gt where f: "f = (pd, gt)" by (cases f)
  from Cons.prems(1) obtain e1 where u: "update e pd gt = Inr e1" and r: "updates e1 frames = Inr e'"
    by (auto simp: f split: sum.splits)
  have "wf_evaluator e1" using update_wf [OF u Cons.prems(2)] .
  from Cons.IH [OF r this] update_fields [OF u] show ?case by simp
qed

lemma reached_wf:
  assumes "updates (Evaluator n sp thr) frames = Inr e"
  shows "wf_evaluator e \<and> n_class e = n \<and> patch e = linspace01 sp \<and> threshold e = thr"
  using updates_wf [OF assms wf_Evaluator] by (simp add: Evaluator_def)

lemma update_counters:
  assumes u: "e' = foldl (class_step ids sc gi iou) e [0..<n_class e]"
    and wf: "wf_evaluator e" and k: "k < n_class e" and p: "p < length (patch e)"
  shows "TP e' ! p ! k = TP e ! p ! k + word_of_int (fst (delta ids sc gi iou k (patch e ! p)))"
    and "FP e' ! p ! k = FP e ! p ! k + word_of_int (fst (snd (delta ids sc gi iou k (patch e ! p))))"
    and "FN e' ! p ! k = FN e ! p ! k + word_of_int (snd (snd (delta ids sc gi iou k (patch e ! p))))"
    and "gt_counts e' ! k = gt_counts e ! k + word_of_int (count_true (map (\<lambda>c. c = int k) gi))"
    and "pd_counts e' ! k = pd_counts e ! k + word_of_int (count_true (map (\<lambda>c. c = int k) ids))"
  using wf k p unfolding u
  by (simp_all add: class_fold_eq mfold_nth afold_nth wf_evaluator_def list_all_length)

lemma delta_spec:
  assumes "length (pd_class_ids pd) = length (scores_or_ones pd)"
    and "selected_predictions pd k v \<noteq> [] \<Longrightarrow>
           length iou = length (pd_class_ids pd)
           \<and> (\<forall>i<length (pd_class_ids pd). length (iou ! i) = length (gt_class_ids gt))"
  shows "delta (pd_class_ids pd) (scores_or_ones pd) (gt_class_ids gt) iou k v =
     (if selected_predictions pd k v = [] then (0, 0, int (length (class_ground_truths gt k)))
      else (int (length (matched_ground_truths iou pd gt k v)),
            int (length (selected_predictions pd k v)) - int (length (matched_ground_truths iou pd gt k v)),
            int (length (class_ground_truths gt k)) - int (length (matched_ground_truths iou pd gt k v))))"
proof -
  have pn: "count_true (pd_mask (pd_class_ids pd) (scores_or_ones pd) k v)
      = int (length (selected_predictions pd k v))"
    using assms(1) by (simp add: pd_number_spec selected_predictions_def)
  have gn: "count_true (map (\<lambda>c. c = int k) (gt_class_ids gt)) = int (length (class_ground_truths gt k))"
    by (simp add: gt_number_spec class_ground_truths_def)
  show ?thesis
  proof (cases "selected_predictions pd k v = []")
    case True
    then show ?thesis by (simp add: delta_def Let_def pn gn)
  next
    case False
    from assms(2) [OF False] assms(1)
    have "true_positive (gt_class_ids gt) iou k (pd_mask (pd_class_ids pd) (scores_or_ones pd) k v)
       = int (length (matched_ground_truths iou pd gt k v))"
      by (simp add: true_positive_spec matched_ground_truths_def selected_predictions_def
          class_ground_truths_def)
    with False show ?thesis by (simp add: delta_def Let_def pn gn)
  qed
qed


section \<open>True positives and false negatives add up\<close>

lemma delta_sum:
  "fst (delta ids sc gi iou k v) + snd (snd (delta ids sc gi iou k v))
     = count_true (map (\<lambda>c. c = int k) gi)"
  by (simp add: delta_def Let_def)

lemma update_tp_fn:
  assumes u: "update e pd gt = Inr e'" and wf: "wf_evaluator e"
    and k: "k < n_class e" and p: "p < length (patch e)"
    and inv: "TP e ! p ! k + FN e ! p ! k = gt_counts e ! k"
  shows "TP e' ! p ! k + FN e' ! p ! k = gt_counts e' ! k"
proof -
  obtain iou where e': "e' = foldl (class_step (pd_class_ids pd) (scores_or_ones pd) (gt_class_ids gt) iou)
                     e [0..<n_class e]"
    using update_fold [OF u] by blast
  note uc = update_counters [OF e' wf k p]
  have "TP e' ! p ! k + FN e' ! p ! k
      = (TP e ! p ! k + FN e ! p ! k)
        + word_of_int (fst (delta (pd_class_ids pd) (scores_or_ones pd) (gt_class_ids gt) iou k (patch e ! p))
                       + snd (snd (delta (pd_class_ids pd) (scores_or_ones pd) (gt_class_ids gt) iou k (patch e ! p))))"
    by (simp only: uc(1) uc(3) of_int_add) (simp add: algebra_simps)
  also have "\<dots> = gt_counts e' ! k"
    by (simp only: delta_sum inv uc(4))
  finally show ?thesis .
qed

lemma updates_tp_fn:
  "updates e frames = Inr e' \<Longrightarrow> wf_evaluator e \<Longrightarrow> k < n_class e \<Longrightarrow> p < length (patch e) \<Longrightarrow>
   TP e ! p ! k + FN e ! p ! k = gt_counts e ! k \<Longrightarrow>
   TP e' ! p ! k + FN e' ! p ! k = gt_counts e' ! k"
proof (induction frames arbitrary: e)
  case Nil
  then show ?case by simp
next
  case (Cons f frames)
  obtain pd gt where f: "f = (pd, gt)" by (cases f)
  from Cons.prems(1) obtain e1 where u: "update e pd gt = Inr e1" and r: "updates e1 frames = Inr e'"
    by (auto simp: f split: sum.splits)
  have w1: "wf_evaluator e1" using update_wf [OF u Cons.prems(2)] .
  have f1: "n_class e1 = n_class e" "patch e1 = patch e" using update_fields [OF u] by simp_all
  have i1: "TP e1 ! p ! k + FN e1 ! p ! k = gt_counts e1 ! k"
    by (rule update_tp_fn [OF u Cons.prems(2,3,4,5)])
  show ?case
    by (rule Cons.IH [OF r w1 _ _ i1]) (simp_all add: f1 Cons.prems)
qed


section \<open>Bounds of the ratios and their means\<close>

lemma nat_ratio_bounds:
  fixes a c :: nat
  assumes "a \<le> c"
  shows "0 \<le> nan_to_num (fdiv (of_nat a) (of_nat c))
       \<and> nan_to_num (fdiv (of_nat a) (of_nat c)) \<le> 1"
proof (cases "c = 0")
  case True
  then show ?thesis using assms by (simp add: fdiv_def)
next
  case False
  then have pos: "(0 :: rat) < of_nat c"
    by simp
  have le: "(of_nat a :: rat) \<le> of_nat c"
    using assms by simp
  have hi: "(of_nat a :: rat) / of_nat c \<le> 1"
    using pos le by (simp add: divide_le_eq_1)
  have lo: "(0 :: rat) \<le> of_nat a / of_nat c"
    by simp
  show ?thesis
    using lo hi False by (simp add: fdiv_def)
qed

lemma ratio_entry_bounds:
  fixes t f :: "32 word"
  assumes "unat t + unat f < 2 ^ 32"
  shows "0 \<le> nan_to_num (fdiv (of_nat (unat t)) (of_nat (unat (t + f))))
       \<and> nan_to_num (fdiv (of_nat (unat t)) (of_nat (unat (t + f)))) \<le> 1"
proof -
  have s: "unat (t + f) = unat t + unat f"
    using assms by (simp add: unat_add_lem [THEN iffD1])
  show ?thesis
    unfolding s by (rule nat_ratio_bounds) simp
qed

lemma sum_list_le_length:
  fixes xs :: "rat list"
  shows "\<forall>x\<in>set xs. x \<le> 1 \<Longrightarrow> sum_list xs \<le> of_nat (length xs)"
  by (induction xs) (simp_all add: add_mono)

lemma mean_bounds:
  assumes "xs \<noteq> []" and "\<forall>x\<in>set xs. 0 \<le> x \<and> x \<le> 1"
  shows "\<exists>q. mean xs = Fin q \<and> 0 \<le> q \<and> q \<le> 1"
proof -
  have n: "(0 :: rat) < of_nat (length xs)" using assms(1) by simp
  have "0 \<le> sum_list xs" using assms(2) by (simp add: sum_list_nonneg)
  then have lo: "0 \<le> sum_list xs / of_nat (length xs)" by simp
  have "sum_list xs \<le> of_nat (length xs)" using assms(2) by (simp add: sum_list_le_length)
  then have hi: "sum_list xs / of_nat (length xs) \<le> 1" using n by (simp add: divide_le_eq_1)
  show ?thesis using assms(1) lo hi by (simp add: mean_def)
qed

lemma ratio_length [simp]: "length (ratio a b) = min (length a) (length b)"
  by (simp add: ratio_def)

lemma ratio_nth:
  "p < length a \<Longrightarrow> p < length b \<Longrightarrow> k < length (a ! p) \<Longrightarrow> k < length (b ! p) \<Longrightarrow>
   ratio a b ! p ! k = nan_to_num (fdiv (of_nat (unat (a ! p ! k))) (of_nat (unat (a ! p ! k + b ! p ! k))))"
  by (simp add: ratio_def)

lemma mean_axis0_bounds:
  assumes la: "length a = nthr" and lb: "length b = nthr" and nthr: "0 < nthr"
    and ra: "\<forall>p < nthr. length (a ! p) = n" and rb: "\<forall>p < nthr. length (b ! p) = n"
    and k: "k < n"
    and nw: "\<forall>p < nthr. unat (a ! p ! k) + unat (b ! p ! k) < 2 ^ 32"
  shows "\<exists>q. mean_axis0 n (ratio a b) ! k = Fin q \<and> 0 \<le> q \<and> q \<le> 1"
proof -
  let ?col = "map (\<lambda>row. row ! k) (ratio a b)"
  have len: "length (ratio a b) = nthr" using la lb by simp
  have "length ?col = nthr" using la lb by simp
  then have ne: "?col \<noteq> []" using nthr by (cases ?col) simp_all
  have "\<forall>x\<in>set ?col. 0 \<le> x \<and> x \<le> 1"
  proof
    fix x assume "x \<in> set ?col"
    then obtain p where p: "p < nthr" and x: "x = ratio a b ! p ! k"
      using len by (auto simp: in_set_conv_nth)
    have "ratio a b ! p ! k
        = nan_to_num (fdiv (of_nat (unat (a ! p ! k))) (of_nat (unat (a ! p ! k + b ! p ! k))))"
      using p la lb ra rb k by (simp add: ratio_nth)
    then show "0 \<le> x \<and> x \<le> 1"
      using ratio_entry_bounds [of "a ! p ! k" "b ! p ! k"] nw p x by simp
  qed
  from mean_bounds [OF ne this] show ?thesis
    using k by (simp add: mean_axis0_def)
qed


section \<open>The loop of the command line\<close>

lemma update_gt_counts:
  assumes u: "update e pd gt = Inr e'" and wf: "wf_evaluator e" and k: "k < n_class e"
  shows "gt_counts e' ! k
       = gt_counts e ! k + word_of_int (count_true (map (\<lambda>c. c = int k) (gt_class_ids gt)))"
proof -
  obtain iou where e': "e' = foldl (class_step (pd_class_ids pd) (scores_or_ones pd) (gt_class_ids gt) iou)
                     e [0..<n_class e]"
    using update_fold [OF u] by blast
  show ?thesis
    using wf k unfolding e' by (simp add: class_fold_eq afold_nth wf_evaluator_def)
qed

lemma uint_of_nat32: "uint (of_nat m :: 32 word) = int (m mod 2 ^ 32)"
proof -
  have "unat (of_nat m :: 32 word) = m mod 2 ^ LENGTH(32)"
    by (rule unat_of_nat)
  then have "int (unat (of_nat m :: 32 word)) = int (m mod 2 ^ LENGTH(32))"
    by (rule arg_cong)
  then show ?thesis
    by (simp only: uint_nat [symmetric] len_num1 len_bit0 mult_numeral_1_right semiring_norm)
qed

lemma count_true_replicate: "count_true (replicate m True) = int m"
  by (simp add: count_true_def)

lemma main_loop_gt_counts:
  "wf_evaluator ev \<Longrightarrow> n_class ev = 2 \<Longrightarrow>
   \<exists>ev'. main_loop results testset indices ev = Inr ev'
      \<and> wf_evaluator ev' \<and> n_class ev' = 2
      \<and> gt_counts ev' ! 1
          = gt_counts ev ! 1 + of_nat (counted_ground_truth_total results testset indices)"
proof (induction indices arbitrary: ev)
  case Nil
  then show ?case by (simp add: counted_ground_truth_total_def)
next
  case (Cons index rest)
  let ?skip = "read_result results index = None \<or> fst (testset ! index) = []"
  show ?case
  proof (cases ?skip)
    case True
    then have m: "main_loop results testset (index # rest) ev = main_loop results testset rest ev"
      by (auto simp: split_def split: option.splits)
    have c: "counted_ground_truth_total results testset (index # rest)
           = counted_ground_truth_total results testset rest"
      using True by (auto simp: counted_ground_truth_total_def)
    show ?thesis
      using Cons.IH [OF Cons.prems] by (simp only: m c)
  next
    case False
    then obtain detection where d: "read_result results index = Some detection"
      and b: "fst (testset ! index) \<noteq> []"
      by auto
    let ?boxes = "fst (testset ! index)"
    let ?pd = "\<lparr>pd_class_ids = map fst detection,
                 pd_scores = Some (map (\<lambda>r. fst (snd r)) detection),
                 pd_bboxes = map (\<lambda>r. snd (snd r)) detection\<rparr>"
    let ?gt = "\<lparr>gt_class_ids = replicate (length ?boxes) 1, gt_bboxes = ?boxes\<rparr>"
    have "well_formed ?pd ?gt \<and> (pd_bboxes ?pd = [] \<or> gt_bboxes ?gt \<noteq> [])"
      using b by (simp add: well_formed_def)
    then obtain e1 where u: "update ev ?pd ?gt = Inr e1"
      using update_Inr_iff [of ev ?pd ?gt] by blast
    have w1: "wf_evaluator e1" by (rule update_wf [OF u Cons.prems(1)])
    have n1: "n_class e1 = 2" using update_fields [OF u] Cons.prems(2) by simp
    have g1: "gt_counts e1 ! 1 = gt_counts ev ! 1 + of_nat (length ?boxes)"
      using update_gt_counts [OF u Cons.prems(1), of 1] Cons.prems(2)
      by (simp add: count_true_replicate)
    have m: "main_loop results testset (index # rest) ev = main_loop results testset rest e1"
      using d b u by (simp add: split_def)
    have c: "counted_ground_truth_total results testset (index # rest)
           = length ?boxes + counted_ground_truth_total results testset rest"
      using d b by (simp add: counted_ground_truth_total_def)
    from Cons.IH [OF w1 n1] obtain ev' where
      r: "main_loop results testset rest e1 = Inr ev'" "wf_evaluator ev'" "n_class ev' = 2"
      and g: "gt_counts ev' ! 1
            = gt_counts e1 ! 1 + of_nat (counted_ground_truth_total results testset rest)"
      by blast
    have "gt_counts ev' ! 1
        = gt_counts ev ! 1
          + of_nat (length ?boxes + counted_ground_truth_total results testset rest)"
      by (simp only: g g1 of_nat_add add.assoc)
    then show ?thesis
      unfolding m c using r by blast
  qed
qed


section \<open>Properties of the IoU computation\<close>







section \<open>Properties of the detection model\<close>

text \<open>
  Claim C8, as stated, fails: the generator yields 8 layers, not 10, with the kernel
  sizes (1,3,1,3,1,3,1,3).
\<close>

theorem C8_ten_layers_counterexample:
  "\<not> (\<exists>layers. extra 1024 = Inr layers \<and> length layers = 10
        \<and> map kernel_size layers = [1, 3, 1, 3, 1, 3, 1, 3, 1, 3])"
  by (simp add: extra_def EXTRAS_def enumerate_eq_zip upt_rec kernel_cycle_def)

text \<open>
  Claim C8, amended: traversing \<open>EXTRAS\<close> from 1024 input channels, the generator
  yields one convolution for each of the 8 entries that do not directly follow an
  \<open>S\<close> entry (the entries 0, 1, 3, 4, 6, 7, 8, 9; the entries 2 and 5 yield none);
  the kernel sizes of these 8 layers alternate (1,3,1,3,1,3,1,3); a layer generated at
  an \<open>S\<close> entry has stride 2, padding 1 and as output channels the next entry; every
  other layer has stride 1, padding 0 and as output channels its own entry.
\<close>

theorem C8_extra_layers:
  "extra 1024 = Inr
     (map (\<lambda>(i, c_in, k).
            \<lparr>in_channels = c_in,
             out_channels = (case (if EXTRAS ! i = S then EXTRAS ! (i + 1) else EXTRAS ! i) of
                               Ch c \<Rightarrow> c | S \<Rightarrow> 0),
             kernel_size = k,
             stride = (if EXTRAS ! i = S then 2 else 1),
             padding = (if EXTRAS ! i = S then 1 else 0)\<rparr>)
        [(0, 1024, 1), (1, 256, 3), (3, 512, 1), (4, 128, 3),
         (6, 256, 1), (7, 128, 3), (8, 256, 1), (9, 128, 3)])
   \<and> extra 1024 = Inr
       [\<lparr>in_channels = 1024, out_channels = 256, kernel_size = 1, stride = 1, padding = 0\<rparr>,
        \<lparr>in_channels = 256, out_channels = 512, kernel_size = 3, stride = 2, padding = 1\<rparr>,
        \<lparr>in_channels = 512, out_channels = 128, kernel_size = 1, stride = 1, padding = 0\<rparr>,
        \<lparr>in_channels = 128, out_channels = 256, kernel_size = 3, stride = 2, padding = 1\<rparr>,
        \<lparr>in_channels = 256, out_channels = 128, kernel_size = 1, stride = 1, padding = 0\<rparr>,
        \<lparr>in_channels = 128, out_channels = 256, kernel_size = 3, stride = 1, padding = 0\<rparr>,
        \<lparr>in_channels = 256, out_channels = 128, kernel_size = 1, stride = 1, padding = 0\<rparr>,
        \<lparr>in_channels = 128, out_channels = 256, kernel_size = 3, stride = 1, padding = 0\<rparr>]"
  by (simp add: extra_def EXTRAS_def enumerate_eq_zip upt_rec kernel_cycle_def)

text \<open>
  Claim C9, evaluated on the code. \<open>detect\<close> raises exactly when the decoder is
  absent, and \<open>train\<close> discards the decoder. But after \<open>eval\<close> the decoder is
  absent again and the module is in training mode, because the base class's \<open>eval\<close>
  calls the overriding \<open>train\<close>: \<open>detect\<close> still raises after entering evaluation
  mode, for every instance.
\<close>

theorem C9_detect_after_eval_raises:
  "(detect run self loc conf prior = Inl InvalidState) = (detector self = None)
   \<and> detector (train mode self) = None
   \<and> detector (eval self) = None
   \<and> training (eval self) = True
   \<and> detect run (eval self) loc conf prior = Inl InvalidState"
  by (simp add: eval_def Module_eval_def train_def Module_train_def detect_def
      split: option.split)


section \<open>Properties of the evaluator\<close>

text \<open>
  Claim C2: for non-empty arrays of predicted boxes \<open>tar\<close> and ground-truth boxes
  \<open>src\<close> and every threshold \<open>t\<close>, \<open>Evaluator.compute_iou\<close> returns the matrix of
  the specification: the pairwise IoU matrix thresholded at \<open>\<ge> t\<close>, in each row of
  the thresholded matrix only the entry at the first index of that row's maximum kept
  and all others zeroed, then thresholded again.
\<close>

theorem C2_match_matrix:
  "tar \<noteq> [] \<Longrightarrow> src \<noteq> [] \<Longrightarrow>
   Evaluator_compute_iou tar src t = Inr (iou_match_spec tar src t)"
  by (rule Evaluator_compute_iou_spec)

theorem C2_match_matrix_witness:
  "[Box 0 0 1 1, Box 0 0 2 2] \<noteq> []
   \<and> [Box 5 5 6 6, Box 0 0 1 1, Box 0 0 1 1] \<noteq> []
   \<and> Evaluator_compute_iou [Box 0 0 1 1, Box 0 0 2 2]
        [Box 5 5 6 6, Box 0 0 1 1, Box 0 0 1 1] (1 / 2)
      = Inr (iou_match_spec [Box 0 0 1 1, Box 0 0 2 2]
               [Box 5 5 6 6, Box 0 0 1 1, Box 0 0 1 1] (1 / 2))
   \<and> iou_match_spec [Box 0 0 1 1, Box 0 0 2 2]
        [Box 5 5 6 6, Box 0 0 1 1, Box 0 0 1 1] (1 / 2)
      = [[False, True, False], [False, False, False]]"
proof -
  have v: "iou_match_spec [Box 0 0 1 1, Box 0 0 2 2]
        [Box 5 5 6 6, Box 0 0 1 1, Box 0 0 1 1] (1 / 2)
      = [[False, True, False], [False, False, False]]"
    by code_simp
  show ?thesis
    using C2_match_matrix [of "[Box 0 0 1 1, Box 0 0 2 2]"
        "[Box 5 5 6 6, Box 0 0 1 1, Box 0 0 1 1]" "1 / 2"] v
    by simp
qed

text \<open>
  Claim C1: for an evaluator reached from its construction by \<open>update\<close> calls, and one
  more \<open>update\<close> call on a frame, for each class \<open>klass\<close> and each threshold index
  \<open>p\<close>: \<open>gt_counts\<close> and \<open>pd_counts\<close> of the class grow by the frame's numbers of
  ground truths and of predictions of the class; if no prediction of the class has a
  score at or above the threshold value, \<open>FN\<close> grows by the number of ground truths of
  the class and \<open>TP\<close> and \<open>FP\<close> keep their values; otherwise \<open>TP\<close> grows by the
  number of ground truths of the class with an accepted match among the selected
  predictions, \<open>FP\<close> by the number of selected predictions minus that number, and
  \<open>FN\<close> by the number of ground truths of the class minus that number. The counters
  are 32-bit: each increment is an integer cast to 32 bits.
\<close>

theorem C1_update_counters:
  assumes "updates (Evaluator n sample_patch thr) frames = Inr self"
    and "update self pd gt = Inr self'"
    and "klass < n" and "p < sample_patch"
  shows "gt_counts self' ! klass
           = gt_counts self ! klass + word_of_int (int (length (class_ground_truths gt klass)))
     \<and> pd_counts self' ! klass
           = pd_counts self ! klass + word_of_int (int (length (class_predictions pd klass)))
     \<and> (selected_predictions pd klass (patch self ! p) = [] \<longrightarrow>
          FN self' ! p ! klass
            = FN self ! p ! klass + word_of_int (int (length (class_ground_truths gt klass)))
          \<and> TP self' ! p ! klass = TP self ! p ! klass
          \<and> FP self' ! p ! klass = FP self ! p ! klass)
     \<and> (selected_predictions pd klass (patch self ! p) \<noteq> [] \<longrightarrow>
          (\<exists>iou. Evaluator_compute_iou (pd_bboxes pd) (gt_bboxes gt) (threshold self) = Inr iou
             \<and> TP self' ! p ! klass
                 = TP self ! p ! klass
                   + word_of_int (int (length (matched_ground_truths iou pd gt klass (patch self ! p))))
             \<and> FP self' ! p ! klass
                 = FP self ! p ! klass
                   + word_of_int (int (length (selected_predictions pd klass (patch self ! p)))
                                  - int (length (matched_ground_truths iou pd gt klass (patch self ! p))))
             \<and> FN self' ! p ! klass
                 = FN self ! p ! klass
                   + word_of_int (int (length (class_ground_truths gt klass))
                                  - int (length (matched_ground_truths iou pd gt klass (patch self ! p))))))"
proof -
  let ?ids = "pd_class_ids pd" and ?sc = "scores_or_ones pd" and ?gi = "gt_class_ids gt"
  let ?v = "patch self ! p"
  have r: "wf_evaluator self" "n_class self = n" "patch self = linspace01 sample_patch"
    using reached_wf [OF assms(1)] by simp_all
  have k: "klass < n_class self" and p: "p < length (patch self)"
    using assms(3,4) r by simp_all
  from update_fold [OF assms(2)] obtain iou where
    wfi: "well_formed pd gt"
    and iou: "(if pd_bboxes pd \<noteq> []
             then Evaluator_compute_iou (pd_bboxes pd) (gt_bboxes gt) (threshold self)
             else Inr []) = Inr iou"
    and e': "self' = foldl (class_step ?ids ?sc ?gi iou) self [0..<n_class self]"
    by blast
  have ls: "length ?ids = length ?sc"
    using wfi by (auto simp: well_formed_def scores_or_ones_def split: option.splits)
  have ne: "selected_predictions pd klass ?v \<noteq> [] \<Longrightarrow> pd_bboxes pd \<noteq> []"
  proof -
    assume "selected_predictions pd klass ?v \<noteq> []"
    then have "length ?ids \<noteq> 0" by (auto simp: selected_predictions_def)
    then show "pd_bboxes pd \<noteq> []" using wfi by (auto simp: well_formed_def)
  qed
  have ci: "selected_predictions pd klass ?v \<noteq> [] \<Longrightarrow>
      Evaluator_compute_iou (pd_bboxes pd) (gt_bboxes gt) (threshold self) = Inr iou
      \<and> length iou = length ?ids \<and> (\<forall>i<length ?ids. length (iou ! i) = length ?gi)"
  proof -
    assume s: "selected_predictions pd klass ?v \<noteq> []"
    have c: "Evaluator_compute_iou (pd_bboxes pd) (gt_bboxes gt) (threshold self) = Inr iou"
      using iou ne [OF s] by simp
    have g: "gt_bboxes gt \<noteq> []"
      using c by (auto simp: compute_iou_Inl)
    have "iou = iou_match_spec (pd_bboxes pd) (gt_bboxes gt) (threshold self)"
      using c Evaluator_compute_iou_spec [OF g, of "pd_bboxes pd" "threshold self"] by simp
    then show ?thesis
      using c wfi by (simp add: iou_match_spec_row_length well_formed_def)
  qed
  have d: "delta ?ids ?sc ?gi iou klass ?v =
     (if selected_predictions pd klass ?v = [] then (0, 0, int (length (class_ground_truths gt klass)))
      else (int (length (matched_ground_truths iou pd gt klass ?v)),
            int (length (selected_predictions pd klass ?v)) - int (length (matched_ground_truths iou pd gt klass ?v)),
            int (length (class_ground_truths gt klass)) - int (length (matched_ground_truths iou pd gt klass ?v))))"
    by (rule delta_spec [OF ls]) (use ci in blast)
  have gn: "count_true (map (\<lambda>c. c = int klass) ?gi) = int (length (class_ground_truths gt klass))"
    by (simp add: gt_number_spec class_ground_truths_def)
  have pn: "count_true (map (\<lambda>c. c = int klass) ?ids) = int (length (class_predictions pd klass))"
    by (simp add: gt_number_spec class_predictions_def)
  note uc = update_counters [OF e' r(1) k p]
  show ?thesis
  proof (intro conjI impI)
    show "gt_counts self' ! klass
           = gt_counts self ! klass + word_of_int (int (length (class_ground_truths gt klass)))"
      using uc(4) by (simp only: gn)
    show "pd_counts self' ! klass
           = pd_counts self ! klass + word_of_int (int (length (class_predictions pd klass)))"
      using uc(5) by (simp only: pn)
  next
    assume s: "selected_predictions pd klass ?v = []"
    show "FN self' ! p ! klass
            = FN self ! p ! klass + word_of_int (int (length (class_ground_truths gt klass)))"
      using uc(3) by (simp add: d s)
    show "TP self' ! p ! klass = TP self ! p ! klass"
      using uc(1) by (simp add: d s)
    show "FP self' ! p ! klass = FP self ! p ! klass"
      using uc(2) by (simp add: d s)
  next
    assume s: "selected_predictions pd klass ?v \<noteq> []"
    show "\<exists>iou. Evaluator_compute_iou (pd_bboxes pd) (gt_bboxes gt) (threshold self) = Inr iou
             \<and> TP self' ! p ! klass
                 = TP self ! p ! klass
                   + word_of_int (int (length (matched_ground_truths iou pd gt klass ?v)))
             \<and> FP self' ! p ! klass
                 = FP self ! p ! klass
                   + word_of_int (int (length (selected_predictions pd klass ?v))
                                  - int (length (matched_ground_truths iou pd gt klass ?v)))
             \<and> FN self' ! p ! klass
                 = FN self ! p ! klass
                   + word_of_int (int (length (class_ground_truths gt klass))
                                  - int (length (matched_ground_truths iou pd gt klass ?v)))"
      using uc(1,2,3) ci [OF s] by (intro exI [of _ iou]) (simp add: d s)
  qed
qed

theorem C1_update_counters_witness:
  "updates (Evaluator 2 2 (1 / 2)) [] = Inr (Evaluator 2 2 (1 / 2))
   \<and> update (Evaluator 2 2 (1 / 2))
        \<lparr>pd_class_ids = [1, 1], pd_scores = Some [1, 1 / 2],
         pd_bboxes = [Box 0 0 1 1, Box 7 7 8 8]\<rparr>
        \<lparr>gt_class_ids = [1, 1], gt_bboxes = [Box 0 0 1 1, Box 3 3 4 4]\<rparr>
      = Inr \<lparr>n_class = 2, patch = [0, 1], threshold = 1 / 2,
             TP = [[0, 1], [0, 1]], FP = [[0, 1], [0, 0]], FN = [[0, 1], [0, 1]],
             gt_counts = [0, 2], pd_counts = [0, 2]\<rparr>
   \<and> (1 :: nat) < 2 \<and> (0 :: nat) < 2
   \<and> gt_counts \<lparr>n_class = 2, patch = [0, 1], threshold = 1 / 2,
             TP = [[0, 1], [0, 1]], FP = [[0, 1], [0, 0]], FN = [[0, 1], [0, 1]],
             gt_counts = [0, 2], pd_counts = [0, 2]\<rparr> ! 1
       = gt_counts (Evaluator 2 2 (1 / 2)) ! 1
         + word_of_int (int (length (class_ground_truths
             \<lparr>gt_class_ids = [1, 1], gt_bboxes = [Box 0 0 1 1, Box 3 3 4 4]\<rparr> 1)))"
proof -
  have h1: "updates (Evaluator 2 2 (1 / 2)) [] = Inr (Evaluator 2 2 (1 / 2))"
    by simp
  have h2: "update (Evaluator 2 2 (1 / 2))
        \<lparr>pd_class_ids = [1, 1], pd_scores = Some [1, 1 / 2],
         pd_bboxes = [Box 0 0 1 1, Box 7 7 8 8]\<rparr>
        \<lparr>gt_class_ids = [1, 1], gt_bboxes = [Box 0 0 1 1, Box 3 3 4 4]\<rparr>
      = Inr \<lparr>n_class = 2, patch = [0, 1], threshold = 1 / 2,
             TP = [[0, 1], [0, 1]], FP = [[0, 1], [0, 0]], FN = [[0, 1], [0, 1]],
             gt_counts = [0, 2], pd_counts = [0, 2]\<rparr>"
    by code_simp
  have h3: "(1 :: nat) < 2" and h4: "(0 :: nat) < 2"
    by simp_all
  note c = C1_update_counters [OF h1 h2 h3 h4, THEN conjunct1]
  show ?thesis
    by (intro conjI h1 h2 h3 h4 c)
qed

text \<open>
  Claim C10: after any sequence of \<open>update\<close> calls none of which raised, on an
  evaluator as constructed, \<open>TP[p][k] + FN[p][k] == gt_counts[k]\<close> at every threshold
  index \<open>p\<close> and class \<open>k\<close>. The sum is the sum of two \<open>uint32\<close> values, as numpy
  forms it.
\<close>

theorem C10_tp_plus_fn:
  assumes "updates (Evaluator n sample_patch thr) frames = Inr self"
    and "p < sample_patch" and "k < n"
  shows "TP self ! p ! k + FN self ! p ! k = gt_counts self ! k"
proof (rule updates_tp_fn [OF assms(1) wf_Evaluator])
  show "k < n_class (Evaluator n sample_patch thr)"
    using assms(3) by (simp add: Evaluator_def)
  show "p < length (patch (Evaluator n sample_patch thr))"
    using assms(2) by (simp add: Evaluator_def)
  show "TP (Evaluator n sample_patch thr) ! p ! k + FN (Evaluator n sample_patch thr) ! p ! k
      = gt_counts (Evaluator n sample_patch thr) ! k"
    using assms(2,3) by (simp add: Evaluator_def)
qed

theorem C10_tp_plus_fn_witness:
  "updates (Evaluator 2 2 (1 / 2))
     [(\<lparr>pd_class_ids = [1, 1], pd_scores = Some [1, 1 / 2],
        pd_bboxes = [Box 0 0 1 1, Box 7 7 8 8]\<rparr>,
       \<lparr>gt_class_ids = [1, 1], gt_bboxes = [Box 0 0 1 1, Box 3 3 4 4]\<rparr>)]
      = Inr \<lparr>n_class = 2, patch = [0, 1], threshold = 1 / 2,
             TP = [[0, 1], [0, 1]], FP = [[0, 1], [0, 0]], FN = [[0, 1], [0, 1]],
             gt_counts = [0, 2], pd_counts = [0, 2]\<rparr>
   \<and> (1 :: nat) < 2 \<and> (1 :: nat) < 2
   \<and> TP \<lparr>n_class = 2, patch = [0, 1], threshold = 1 / 2,
             TP = [[0, 1], [0, 1]], FP = [[0, 1], [0, 0]], FN = [[0, 1], [0, 1]],
             gt_counts = [0, 2], pd_counts = [0, 2]\<rparr> ! 1 ! 1
     + FN \<lparr>n_class = 2, patch = [0, 1], threshold = 1 / 2,
             TP = [[0, 1], [0, 1]], FP = [[0, 1], [0, 0]], FN = [[0, 1], [0, 1]],
             gt_counts = [0, 2], pd_counts = [0, 2]\<rparr> ! 1 ! 1
     = gt_counts \<lparr>n_class = 2, patch = [0, 1], threshold = 1 / 2,
             TP = [[0, 1], [0, 1]], FP = [[0, 1], [0, 0]], FN = [[0, 1], [0, 1]],
             gt_counts = [0, 2], pd_counts = [0, 2]\<rparr> ! 1"
proof -
  have h1: "updates (Evaluator 2 2 (1 / 2))
     [(\<lparr>pd_class_ids = [1, 1], pd_scores = Some [1, 1 / 2],
        pd_bboxes = [Box 0 0 1 1, Box 7 7 8 8]\<rparr>,
       \<lparr>gt_class_ids = [1, 1], gt_bboxes = [Box 0 0 1 1, Box 3 3 4 4]\<rparr>)]
      = Inr \<lparr>n_class = 2, patch = [0, 1], threshold = 1 / 2,
             TP = [[0, 1], [0, 1]], FP = [[0, 1], [0, 0]], FN = [[0, 1], [0, 1]],
             gt_counts = [0, 2], pd_counts = [0, 2]\<rparr>"
    by code_simp
  have h2: "(1 :: nat) < 2"
    by simp
  note c = C10_tp_plus_fn [OF h1 h2 h2]
  show ?thesis
    by (intro conjI h1 h2 c)
qed

text \<open>
  Claim C4, as stated, fails: with a predicted box and no ground-truth box, the
  \<open>argmax\<close> over the empty ground-truth axis raises ValueError.
\<close>

theorem C4_zero_ground_truths_counterexample:
  "well_formed \<lparr>pd_class_ids = [1], pd_scores = None, pd_bboxes = [Box 0 0 1 1]\<rparr>
               \<lparr>gt_class_ids = [], gt_bboxes = []\<rparr>
   \<and> update (Evaluator 2 11 (1 / 2))
        \<lparr>pd_class_ids = [1], pd_scores = None, pd_bboxes = [Box 0 0 1 1]\<rparr>
        \<lparr>gt_class_ids = [], gt_bboxes = []\<rparr> = Inl ValueError"
  by (simp add: well_formed_def update_def compute_iou_Inl)

text \<open>
  Claim C4, amended: for every well-formed input pair, \<open>update\<close> raises no exception
  when there is no predicted box or there is at least one ground-truth box (zero-area
  boxes included); with predicted boxes and no ground-truth box it raises ValueError.
\<close>

theorem C4_update_returns:
  assumes "well_formed pd gt"
  shows "(pd_bboxes pd = [] \<or> gt_bboxes gt \<noteq> [] \<longrightarrow> (\<exists>self'. update self pd gt = Inr self'))
     \<and> (pd_bboxes pd \<noteq> [] \<and> gt_bboxes gt = [] \<longrightarrow> update self pd gt = Inl ValueError)"
proof (intro conjI impI)
  assume "pd_bboxes pd = [] \<or> gt_bboxes gt \<noteq> []"
  then show "\<exists>self'. update self pd gt = Inr self'"
    using assms by (simp add: update_Inr_iff)
next
  assume "pd_bboxes pd \<noteq> [] \<and> gt_bboxes gt = []"
  then show "update self pd gt = Inl ValueError"
    using assms by (simp add: update_def compute_iou_Inl)
qed

theorem C4_update_returns_witness:
  "well_formed \<lparr>pd_class_ids = [], pd_scores = None, pd_bboxes = []\<rparr>
               \<lparr>gt_class_ids = [1], gt_bboxes = [Box 0 0 0 0]\<rparr>
   \<and> (\<exists>self'. update (Evaluator 2 11 (1 / 2))
        \<lparr>pd_class_ids = [], pd_scores = None, pd_bboxes = []\<rparr>
        \<lparr>gt_class_ids = [1], gt_bboxes = [Box 0 0 0 0]\<rparr> = Inr self')
   \<and> well_formed \<lparr>pd_class_ids = [1], pd_scores = Some [1], pd_bboxes = [Box 0 0 0 0]\<rparr>
               \<lparr>gt_class_ids = [1], gt_bboxes = [Box 0 0 0 0]\<rparr>
   \<and> (\<exists>self'. update (Evaluator 2 11 (1 / 2))
        \<lparr>pd_class_ids = [1], pd_scores = Some [1], pd_bboxes = [Box 0 0 0 0]\<rparr>
        \<lparr>gt_class_ids = [1], gt_bboxes = [Box 0 0 0 0]\<rparr> = Inr self')"
proof -
  have w1: "well_formed \<lparr>pd_class_ids = [], pd_scores = None, pd_bboxes = []\<rparr>
               \<lparr>gt_class_ids = [1], gt_bboxes = [Box 0 0 0 0]\<rparr>"
    by (simp add: well_formed_def)
  have w2: "well_formed \<lparr>pd_class_ids = [1], pd_scores = Some [1], pd_bboxes = [Box 0 0 0 0]\<rparr>
               \<lparr>gt_class_ids = [1], gt_bboxes = [Box 0 0 0 0]\<rparr>"
    by (simp add: well_formed_def)
  show ?thesis
    using C4_update_returns [OF w1, of "Evaluator 2 11 (1 / 2)"]
      C4_update_returns [OF w2, of "Evaluator 2 11 (1 / 2)"] w1 w2
    by simp
qed

text \<open>
  Claim C3, evaluated on the code. \<open>precision\<close> and \<open>recall\<close> are already averaged
  over the thresholds and have one entry per class, so the loop of \<open>mAP\<close> runs over
  the classes in reverse order, not over the thresholds, and adds each term to the
  entry of every class. On the two-class frame, class 0 has \<open>TP\<close> equal to its
  ground-truth count and \<open>FP = FN = 0\<close> at every threshold, precision 1 and recall 1,
  and still its \<open>mAP\<close> entry is 3/4, not 1.
\<close>

theorem C3_perfect_class_mAP:
  "updates (Evaluator 2 11 (1 / 2)) [two_class_frame] = Inr two_class_state
   \<and> map (\<lambda>row. row ! 0) (TP two_class_state) = replicate 11 (gt_counts two_class_state ! 0)
   \<and> map (\<lambda>row. row ! 0) (FP two_class_state) = replicate 11 0
   \<and> map (\<lambda>row. row ! 0) (FN two_class_state) = replicate 11 0
   \<and> precision two_class_state = [Fin 1, Fin (1 / 2)]
   \<and> recall two_class_state = [Fin 1, Fin (1 / 2)]
   \<and> mAP two_class_state = [Fin (3 / 4), Fin (3 / 4)]"
  by code_simp

text \<open>
  Claim C7, as stated, fails. With no threshold (\<open>sample_patch = 0\<close>) the mean over
  the thresholds is the mean of an empty slice, NaN. With an IoU threshold of 0 the
  second thresholding of the match matrix accepts every pair, more ground truths are
  matched than predictions were selected, \<open>FP\<close> receives \<open>-1\<close> and wraps around to
  \<open>2^32 - 1\<close>, and the \<open>uint32\<close> sum \<open>TP + FP\<close> wraps around to 1: the precision
  of class 1 is 2.
\<close>

theorem C7_out_of_range_counterexample:
  "precision (Evaluator 1 0 (1 / 2)) = [NaN]
   \<and> updates (Evaluator 2 11 0) [one_prediction_frame] = Inr zero_threshold_state
   \<and> precision zero_threshold_state = [Fin 0, Fin 2]"
  by code_simp

text \<open>
  Claim C7, amended: after any sequence of \<open>update\<close> calls on an evaluator with at
  least one threshold, for every class at whose counters the sums \<open>TP + FP\<close> and
  \<open>TP + FN\<close> stay below \<open>2^32\<close> at every threshold (so that the \<open>uint32\<close> sums do
  not wrap around), the precision and the recall of the class are numbers in [0,1],
  not NaN.
\<close>

theorem C7_precision_recall_bounds:
  assumes "updates (Evaluator n sample_patch thr) frames = Inr self"
    and "0 < sample_patch" and "k < n"
    and "\<forall>p < sample_patch. unat (TP self ! p ! k) + unat (FP self ! p ! k) < 2 ^ 32
                        \<and> unat (TP self ! p ! k) + unat (FN self ! p ! k) < 2 ^ 32"
  shows "(\<exists>q. precision self ! k = Fin q \<and> 0 \<le> q \<and> q \<le> 1)
       \<and> (\<exists>q. recall self ! k = Fin q \<and> 0 \<le> q \<and> q \<le> 1)"
proof -
  have r: "wf_evaluator self" "n_class self = n" "patch self = linspace01 sample_patch"
    using reached_wf [OF assms(1)] by simp_all
  have l: "length (TP self) = sample_patch" "length (FP self) = sample_patch"
    "length (FN self) = sample_patch"
    using r by (simp_all add: wf_evaluator_def)
  have rows: "\<forall>p < sample_patch. length (TP self ! p) = n"
    "\<forall>p < sample_patch. length (FP self ! p) = n"
    "\<forall>p < sample_patch. length (FN self ! p) = n"
    using r by (simp_all add: wf_evaluator_def list_all_length)
  have "\<exists>q. mean_axis0 n (ratio (TP self) (FP self)) ! k = Fin q \<and> 0 \<le> q \<and> q \<le> 1"
    by (rule mean_axis0_bounds [OF l(1) l(2) assms(2) rows(1) rows(2) assms(3)])
       (use assms(4) in blast)
  moreover have "\<exists>q. mean_axis0 n (ratio (TP self) (FN self)) ! k = Fin q \<and> 0 \<le> q \<and> q \<le> 1"
    by (rule mean_axis0_bounds [OF l(1) l(3) assms(2) rows(1) rows(3) assms(3)])
       (use assms(4) in blast)
  ultimately show ?thesis
    by (simp add: precision_def recall_def r(2))
qed



theorem C7_precision_recall_bounds_witness:
  "updates (Evaluator 2 11 (1 / 2)) [two_class_frame] = Inr two_class_state
   \<and> (0 :: nat) < 11 \<and> (1 :: nat) < 2
   \<and> (\<exists>q. precision two_class_state ! 1 = Fin q \<and> 0 \<le> q \<and> q \<le> 1)
   \<and> (\<exists>q. recall two_class_state ! 1 = Fin q \<and> 0 \<le> q \<and> q \<le> 1)"
proof -
  have h1: "updates (Evaluator 2 11 (1 / 2)) [two_class_frame] = Inr two_class_state"
    by code_simp
  have h2: "(0 :: nat) < 11" and h3: "(1 :: nat) < 2"
    by simp_all
  have tp: "\<forall>p < 11. TP two_class_state ! p ! 1 = 1"
    and fp: "\<forall>p < 11. FP two_class_state ! p ! 1 = 1"
    and fn: "\<forall>p < 11. FN two_class_state ! p ! 1 = 1"
    by (simp_all add: two_class_state_def nth_Cons' less_Suc_eq numeral_eq_Suc)
  have h4: "\<forall>p < 11. unat (TP two_class_state ! p ! 1) + unat (FP two_class_state ! p ! 1) < 2 ^ 32
                    \<and> unat (TP two_class_state ! p ! 1) + unat (FN two_class_state ! p ! 1) < 2 ^ 32"
    using tp fp fn by simp
  note c = C7_precision_recall_bounds [OF h1 h2 h3 h4]
  show ?thesis
    by (intro conjI h1 h2 h3 c [THEN conjunct1] c [THEN conjunct2])
qed

text \<open>
  Claim C5, as stated, fails: a frame whose result file cannot be read is skipped
  before its ground truth is fetched, so its ground-truth boxes are not counted. With
  one frame, one ground-truth box and no result file, the reported total is 0, not 1.
\<close>

theorem C5_unread_frame_counterexample:
  "main [] [([Box 0 0 1 1], [1])] = Inr (0, 0)
   \<and> ground_truth_total [([Box 0 0 1 1], [1])] = 1"
  by code_simp

text \<open>
  Claim C5, amended: \<open>main\<close> returns, and the reported total ground-truth count is
  the sum of the ground-truth box counts over exactly the frames whose entry in the
  sorted list of result files can be read and whose ground truth is not empty; the
  counter being a \<open>uint32\<close>, the sum is reported modulo \<open>2^32\<close>.
\<close>

theorem C5_main_ground_truth_count:
  "\<exists>pd_total. main results testset =
     Inr (int (counted_ground_truth_total results testset [0..<length testset] mod 2 ^ 32), pd_total)"
proof -
  have w: "wf_evaluator (Evaluator 2 11 (1 / 2))" by (rule wf_Evaluator)
  have n: "n_class (Evaluator 2 11 (1 / 2)) = 2" by (simp add: Evaluator_def)
  from main_loop_gt_counts [OF w n, of results testset "[0..<length testset]"]
  obtain ev' where m: "main_loop results testset [0..<length testset] (Evaluator 2 11 (1 / 2)) = Inr ev'"
    and n': "n_class ev' = 2"
    and g: "gt_counts ev' ! 1 = gt_counts (Evaluator 2 11 (1 / 2)) ! 1
              + of_nat (counted_ground_truth_total results testset [0..<length testset])"
    by blast
  have g0: "gt_counts ev' ! 1 = of_nat (counted_ground_truth_total results testset [0..<length testset])"
    using g by (simp add: Evaluator_def)
  have u: "uint (gt_counts ev' ! 1)
         = int (counted_ground_truth_total results testset [0..<length testset] mod 2 ^ 32)"
    by (simp only: g0 uint_of_nat32)
  have two: "[0..<2] = [0, Suc 0]" by (simp add: upt_rec)
  have f: "foldl (\<lambda>(gt_total, pd_total) klass.
                        if klass = 0 then (gt_total, pd_total)
                        else (gt_total + uint (gt_counts ev' ! klass),
                              pd_total + uint (pd_counts ev' ! klass)))
                     (0, 0) [0..<n_class ev']
         = (uint (gt_counts ev' ! 1), uint (pd_counts ev' ! 1))"
    by (simp add: n' two)
  have "main results testset = Inr (uint (gt_counts ev' ! 1), uint (pd_counts ev' ! 1))"
    by (simp only: main_def m sum.case f)
  then show ?thesis
    by (intro exI [of _ "uint (pd_counts ev' ! 1)"]) (simp only: u)
qed


end
